theory Spec2Isabelle
  imports Main "HOL-Library.Word" "HOL-Library.Sublist"
begin

section \<open>The chat session controller of \<^verbatim>\<open>static/js/chat.js\<close>\<close>

text \<open>
  The controller is one \<^verbatim>\<open>DOMContentLoaded\<close> handler that closes over three variables
  (\<^verbatim>\<open>currentLessonPlan\<close>, \<^verbatim>\<open>currentLessonIndex\<close>, \<^verbatim>\<open>isFirstMessage\<close>) and over the DOM
  nodes it looks up by id. The embedding puts the variables and the parts of those nodes
  that the code writes into one record, and every function of the source becomes a
  function on that record. A \<^verbatim>\<open>fetch\<close> followed by \<^verbatim>\<open>response.json()\<close> is an input of the
  model: its outcome (a parsed body, or a rejection) is a parameter of the handler.
\<close>

subsection \<open>JavaScript strings\<close>

text \<open>
  A JavaScript string is a sequence of 16-bit UTF-16 code units; the regular expressions
  of the source have no \<^verbatim>\<open>u\<close> flag, so they too work on code units. \<open>js\<close> turns an
  ASCII literal into such a sequence.
\<close>

type_synonym cu = "16 word"
type_synonym jsstring = "cu list"

definition js :: "string \<Rightarrow> jsstring" where
  "js = map (\<lambda>c. of_nat (of_char c))"

text \<open>
  \<^verbatim>\<open>LineTerminator\<close> and \<^verbatim>\<open>WhiteSpace\<close> of ECMAScript: LF, CR, LS, PS, and TAB, VT, FF,
  SP, NBSP, ZWNBSP and the other space separators of Unicode.
\<close>

definition isLineTerminator :: "cu \<Rightarrow> bool" where
  "isLineTerminator c \<longleftrightarrow> c = 0x0A \<or> c = 0x0D \<or> c = 0x2028 \<or> c = 0x2029"

definition isWhiteSpace :: "cu \<Rightarrow> bool" where
  "isWhiteSpace c \<longleftrightarrow>
     c = 0x09 \<or> c = 0x0B \<or> c = 0x0C \<or> c = 0x20 \<or> c = 0xA0 \<or> c = 0x1680 \<or>
     (0x2000 \<le> c \<and> c \<le> 0x200A) \<or> c = 0x202F \<or> c = 0x205F \<or> c = 0x3000 \<or> c = 0xFEFF"

definition isTrimmed :: "cu \<Rightarrow> bool" where
  "isTrimmed c \<longleftrightarrow> isWhiteSpace c \<or> isLineTerminator c"

text \<open>\<^verbatim>\<open>String.prototype.trim\<close>: white space and line terminators go from both ends.\<close>

definition trim :: "jsstring \<Rightarrow> jsstring" where
  "trim s = rev (dropWhile isTrimmed (rev (dropWhile isTrimmed s)))"

subsection \<open>\<^verbatim>\<open>escapeHtml\<close> and \<^verbatim>\<open>formatMessage\<close>\<close>

text \<open>
  \<^verbatim>\<open>escapeHtml\<close> stores the text as the \<^verbatim>\<open>textContent\<close> of a fresh \<^verbatim>\<open>div\<close> and reads its
  \<^verbatim>\<open>innerHTML\<close> back. The browser serialises a text node by replacing \<^verbatim>\<open>&\<close>, the
  no-break space, \<^verbatim>\<open><\<close> and \<^verbatim>\<open>>\<close> and copying every other code unit (the HTML standard's
  "escaping a string", outside attribute mode); quotes are copied.
\<close>

definition escape_cu :: "cu \<Rightarrow> jsstring" where
  "escape_cu c =
     (if c = 0x26 then js ''&amp;''
      else if c = 0xA0 then js ''&nbsp;''
      else if c = 0x3C then js ''&lt;''
      else if c = 0x3E then js ''&gt;''
      else [c])"

definition escapeHtml :: "jsstring \<Rightarrow> jsstring" where
  "escapeHtml text = concat (map escape_cu text)"

text \<open>
  The two emphasis patterns \<^verbatim>\<open>/\*\*(.+?)\*\*/g\<close> and \<^verbatim>\<open>/\*(.+?)\*/g\<close> have the same shape:
  a delimiter \<open>d\<close>, a lazy \<^verbatim>\<open>(.+?)\<close>, the delimiter again. \<open>lazy_dot_until d s\<close> runs the
  part after the opening delimiter: the dot takes one code unit, which must not be a
  line terminator; then the closing delimiter is tried; only when it fails does the
  lazy quantifier take one more code unit. Nothing follows the closing delimiter in the
  pattern, so its first success is the match. The result is the captured group and the
  input after the match.
\<close>

fun lazy_dot_until :: "jsstring \<Rightarrow> jsstring \<Rightarrow> (jsstring \<times> jsstring) option" where
  "lazy_dot_until d [] = None"
| "lazy_dot_until d (c # s) =
     (if isLineTerminator c then None
      else if prefix d s then Some ([c], drop (length d) s)
      else (case lazy_dot_until d s of
              None \<Rightarrow> None
            | Some (g, rest) \<Rightarrow> Some (c # g, rest)))"

text \<open>The whole pattern, tried at the start of \<open>s\<close>.\<close>

definition match_here :: "jsstring \<Rightarrow> jsstring \<Rightarrow> (jsstring \<times> jsstring) option" where
  "match_here d s = (if prefix d s then lazy_dot_until d (drop (length d) s) else None)"

lemma lazy_dot_until_shorter:
  "lazy_dot_until d s = Some (g, rest) \<Longrightarrow> length rest < length s"
proof (induction s arbitrary: g)
  case Nil
  then show ?case by simp
next
  case (Cons c s)
  show ?case
  proof (cases "prefix d s")
    case True
    with Cons.prems show ?thesis by (auto split: if_splits)
  next
    case False
    with Cons.prems obtain g' where "lazy_dot_until d s = Some (g', rest)"
      by (auto split: if_splits option.splits)
    from Cons.IH [OF this] show ?thesis by simp
  qed
qed

lemma match_here_shorter:
  "match_here d s = Some (g, rest) \<Longrightarrow> length rest < length s"
  by (auto simp: match_here_def split: if_splits dest!: lazy_dot_until_shorter)

text \<open>
  \<^verbatim>\<open>text.replace(re, opn + '$1' + cls)\<close> with a global pattern: the pattern is tried at
  each index from the left; a match is replaced and the search goes on after it (no
  match is empty); where there is none the code unit is copied.
\<close>

function replace_delimited :: "jsstring \<Rightarrow> jsstring \<Rightarrow> jsstring \<Rightarrow> jsstring \<Rightarrow> jsstring" where
  "replace_delimited d opn cls [] = []"
| "replace_delimited d opn cls (c # s) =
     (case match_here d (c # s) of
        Some (g, rest) \<Rightarrow> opn @ g @ cls @ replace_delimited d opn cls rest
      | None \<Rightarrow> c # replace_delimited d opn cls s)"
  by pat_completeness auto
termination
  by (relation "measure (\<lambda>(d, opn, cls, s). length s)")
    (auto dest: match_here_shorter)

text \<open>\<^verbatim>\<open>text.replace(/\n/g, '<br>')\<close>\<close>

definition replace_newlines :: "jsstring \<Rightarrow> jsstring" where
  "replace_newlines text = concat (map (\<lambda>c. if c = 0x0A then js ''<br>'' else [c]) text)"

definition formatMessage :: "jsstring \<Rightarrow> jsstring" where
  "formatMessage text =
     (let text = escapeHtml text;
          text = replace_delimited (js ''**'') (js ''<strong>'') (js ''</strong>'') text;
          text = replace_delimited (js ''*'') (js ''<em>'') (js ''</em>'') text;
          text = replace_newlines text
      in text)"

subsection \<open>Responses of the remote API\<close>

text \<open>
  A call either rejects (network error, or a body that is not JSON) or resolves with the
  parsed body. Bodies are taken well-typed, with the fields of the interface the code
  reads: \<^verbatim>\<open>{ message, lesson_plan?, is_finished?, error? }\<close> from \<^verbatim>\<open>POST /api/chat\<close> and
  \<^verbatim>\<open>{ history?: [{sender, message, timestamp}] }\<close> from \<^verbatim>\<open>GET /api/session\<close>. An absent
  field is \<open>None\<close>.
\<close>

type_synonym failure = jsstring

datatype 'a outcome = Rejected failure | Resolved 'a

record chat_response =
  resp_message :: jsstring
  resp_lesson_plan :: "jsstring list option"
  resp_is_finished :: "bool option"
  resp_error :: "jsstring option"

record history_message =
  hist_sender :: jsstring
  hist_message :: jsstring
  hist_timestamp :: jsstring

record session_response =
  resp_history :: "history_message list option"

text \<open>
  The conditions of the source test truthiness: \<^verbatim>\<open>if (data.error)\<close> holds for a
  non-empty string only, \<^verbatim>\<open>data.lesson_plan && data.lesson_plan.length > 0\<close> for a
  non-empty array, \<^verbatim>\<open>if (data.is_finished)\<close> for \<^verbatim>\<open>true\<close>.
\<close>

definition truthy_string :: "jsstring option \<Rightarrow> bool" where
  "truthy_string v = (case v of None \<Rightarrow> False | Some t \<Rightarrow> t \<noteq> [])"

definition truthy_bool :: "bool option \<Rightarrow> bool" where
  "truthy_bool v = (case v of None \<Rightarrow> False | Some b \<Rightarrow> b)"

definition nonempty_array :: "'a list option \<Rightarrow> bool" where
  "nonempty_array v = (case v of None \<Rightarrow> False | Some xs \<Rightarrow> length xs > 0)"

subsection \<open>The page and the session variables\<close>

text \<open>
  A child of \<^verbatim>\<open>#chatMessages\<close> is the welcome placeholder (the element of class
  \<^verbatim>\<open>welcome-message\<close>) or a message \<^verbatim>\<open>div\<close>, kept as its class name, its avatar, the HTML
  put into its bubble and its time label. The three avatars are the emoji literals of
  the source; a system message has no time label. The label itself is a locale-formatted
  clock reading, kept only as where it comes from.
\<close>

datatype avatar = UserAvatar | RobotAvatar | WarningAvatar

datatype time_label = CurrentTime | HistoryTime jsstring

datatype node = WelcomeMessage | MessageDiv string avatar jsstring "time_label option"

record lesson_item =
  item_class :: string
  item_number :: "nat option"
  item_text :: jsstring

datatype request = GetSession | DeleteSession | PostChat jsstring

text \<open>
  \<open>requests\<close>, \<open>toasts\<close> and \<open>console_errors\<close> log the calls of \<^verbatim>\<open>fetch\<close>, \<^verbatim>\<open>showToast\<close>
  and \<^verbatim>\<open>console.error\<close>; \<open>scroll_timers\<close> counts the timers set by \<^verbatim>\<open>scrollToBottom\<close>.
  \<open>progressFill\<close> keeps the two operands of the percentage, which the source computes in
  floating point. \<open>currentLessonIndex\<close> is a JavaScript number that only ever starts at
  0 and is incremented, so it is a natural number here.
\<close>

record state =
  currentLessonPlan :: "jsstring list"
  currentLessonIndex :: nat
  isFirstMessage :: bool
  chatMessages :: "node list"
  chatInput_value :: jsstring
  chatInput_disabled :: bool
  chatInput_focused :: bool
  sendBtn_disabled :: bool
  nextLessonBtn_disabled :: bool
  replayLessonBtn_disabled :: bool
  typingIndicator_display :: string
  lessonControls_display :: string
  lessonList :: "lesson_item list"
  progressCurrent :: "nat option"
  progressTotal :: "nat option"
  progressFill :: "(nat \<times> nat) option"
  toasts :: "jsstring list"
  requests :: "request list"
  console_errors :: "(string \<times> failure) list"
  scroll_timers :: nat

text \<open>
  Modelled from the spec: the page template that holds the DOM nodes is not under
  \<^verbatim>\<open>src/\<close>. The values of the three variables are those of their declarations in the
  source; the transcript starts with the welcome placeholder alone, the sidebar list
  empty, nothing disabled and no inline style set.
\<close>

definition initial_state :: state where
  "initial_state =
     \<lparr> currentLessonPlan = [], currentLessonIndex = 0, isFirstMessage = True,
       chatMessages = [WelcomeMessage], chatInput_value = [],
       chatInput_disabled = False, chatInput_focused = False, sendBtn_disabled = False,
       nextLessonBtn_disabled = False, replayLessonBtn_disabled = False,
       typingIndicator_display = [], lessonControls_display = [],
       lessonList = [], progressCurrent = None, progressTotal = None, progressFill = None,
       toasts = [], requests = [], console_errors = [], scroll_timers = 0 \<rparr>"

subsection \<open>Small helpers\<close>

definition showTypingIndicator :: "state \<Rightarrow> state" where
  "showTypingIndicator s = s\<lparr>typingIndicator_display := ''flex''\<rparr>"

definition hideTypingIndicator :: "state \<Rightarrow> state" where
  "hideTypingIndicator s = s\<lparr>typingIndicator_display := ''none''\<rparr>"

definition scrollToBottom :: "state \<Rightarrow> state" where
  "scrollToBottom s = s\<lparr>scroll_timers := Suc (scroll_timers s)\<rparr>"

definition showToast :: "jsstring \<Rightarrow> state \<Rightarrow> state" where
  "showToast message s = s\<lparr>toasts := toasts s @ [message]\<rparr>"

definition fetch :: "request \<Rightarrow> state \<Rightarrow> state" where
  "fetch r s = s\<lparr>requests := requests s @ [r]\<rparr>"

text \<open>The party-popper emoji U+1F389 ends the completion notice, as a surrogate pair.\<close>

definition completed_notice :: jsstring where
  "completed_notice = js ''Lesson plan completed! '' @ [0xD83C, 0xDF89]"

text \<open>
  \<^verbatim>\<open>chatMessages.querySelector('.welcome-message')\<close> finds the first placeholder, and
  \<^verbatim>\<open>remove()\<close> takes that one out.
\<close>

fun remove_welcome :: "node list \<Rightarrow> node list" where
  "remove_welcome [] = []"
| "remove_welcome (n # ns) = (if n = WelcomeMessage then ns else n # remove_welcome ns)"

subsection \<open>Appending to the transcript\<close>

definition addUserMessage :: "jsstring \<Rightarrow> state \<Rightarrow> state" where
  "addUserMessage text s =
     scrollToBottom
       (s\<lparr>chatMessages := remove_welcome (chatMessages s) @
             [MessageDiv ''message user'' UserAvatar (escapeHtml text) (Some CurrentTime)]\<rparr>)"

definition addAIMessage :: "jsstring \<Rightarrow> state \<Rightarrow> state" where
  "addAIMessage text s =
     scrollToBottom
       (s\<lparr>chatMessages := chatMessages s @
             [MessageDiv ''message ai'' RobotAvatar (formatMessage text) (Some CurrentTime)]\<rparr>)"

definition addSystemMessage :: "jsstring \<Rightarrow> state \<Rightarrow> state" where
  "addSystemMessage text s =
     scrollToBottom
       (s\<lparr>chatMessages := chatMessages s @
             [MessageDiv ''message ai'' WarningAvatar (escapeHtml text) None]\<rparr>)"

subsection \<open>The lesson sidebar\<close>

definition lesson_class :: "nat \<Rightarrow> nat \<Rightarrow> string" where
  "lesson_class index current =
     (if index = current then ''lesson-item active''
      else if index < current then ''lesson-item completed''
      else ''lesson-item'')"

definition updateLessonProgress :: "state \<Rightarrow> state" where
  "updateLessonProgress s =
     (if length (currentLessonPlan s) > 0 then
        s\<lparr>progressCurrent := Some (currentLessonIndex s + 1),
          progressTotal := Some (length (currentLessonPlan s)),
          progressFill := Some (currentLessonIndex s + 1, length (currentLessonPlan s)),
          lessonList :=
            map (\<lambda>(index, item). item\<lparr>item_class := lesson_class index (currentLessonIndex s)\<rparr>)
              (enumerate 0 (lessonList s))\<rparr>
      else s)"

definition lessonItem :: "nat \<Rightarrow> nat \<Rightarrow> jsstring \<Rightarrow> lesson_item" where
  "lessonItem current index lesson =
     \<lparr> item_class = lesson_class index current,
       item_number = (if index < current then None else Some (index + 1)),
       item_text = escapeHtml lesson \<rparr>"

text \<open>The list is emptied, then \<^verbatim>\<open>forEach\<close> appends one item per lesson.\<close>

definition updateLessonPlan :: "jsstring list \<Rightarrow> state \<Rightarrow> state" where
  "updateLessonPlan lessons s =
     updateLessonProgress
       (s\<lparr>lessonList :=
            foldl (\<lambda>items (index, lesson). items @ [lessonItem (currentLessonIndex s) index lesson])
              [] (enumerate 0 lessons)\<rparr>)"

subsection \<open>The submit handler of the chat form\<close>

text \<open>
  The handler runs in two stretches. \<open>submit_begin\<close> is the part before the first
  \<^verbatim>\<open>await\<close>: it returns \<open>None\<close> at the early \<^verbatim>\<open>return\<close> for a blank message, and otherwise
  the page as it stands when the request has been issued. \<open>submit_resolve\<close> is the rest,
  run when the request has resolved or rejected: the \<^verbatim>\<open>try\<close> body after the awaits, or
  the \<^verbatim>\<open>catch\<close> block, and then the \<^verbatim>\<open>finally\<close> block.
\<close>

definition submit_begin :: "state \<Rightarrow> state option" where
  "submit_begin s =
     (let message = trim (chatInput_value s) in
      if message = [] then None
      else
        let s = addUserMessage message s;
            s = s\<lparr>chatInput_value := []\<rparr>;
            s = s\<lparr>chatInput_disabled := True\<rparr>;
            s = s\<lparr>sendBtn_disabled := True\<rparr>;
            s = showTypingIndicator s
        in Some (fetch (PostChat message) s))"

definition submit_try :: "chat_response \<Rightarrow> state \<Rightarrow> state" where
  "submit_try data s =
     (let s = hideTypingIndicator s in
      if truthy_string (resp_error data) then
        addSystemMessage (js ''Error: '' @ the (resp_error data)) s
      else
        let s = (if nonempty_array (resp_lesson_plan data) then
                   updateLessonPlan (the (resp_lesson_plan data))
                     (s\<lparr>currentLessonPlan := the (resp_lesson_plan data)\<rparr>)
                 else s);
            s = addAIMessage (resp_message data) s
        in
          if truthy_bool (resp_is_finished data) then
            showToast completed_notice (s\<lparr>lessonControls_display := ''none''\<rparr>)
          else if isFirstMessage s then
            s\<lparr>lessonControls_display := ''flex'', isFirstMessage := False\<rparr>
          else s)"

definition submit_catch :: "failure \<Rightarrow> state \<Rightarrow> state" where
  "submit_catch err s =
     (let s = hideTypingIndicator s;
          s = addSystemMessage (js ''Failed to send message. Please try again.'') s
      in s\<lparr>console_errors := console_errors s @ [(''Error:'', err)]\<rparr>)"

definition submit_finally :: "state \<Rightarrow> state" where
  "submit_finally s =
     s\<lparr>chatInput_disabled := False, sendBtn_disabled := False, chatInput_focused := True\<rparr>"

definition submit_resolve :: "chat_response outcome \<Rightarrow> state \<Rightarrow> state" where
  "submit_resolve oc s =
     submit_finally
       (case oc of
          Resolved data \<Rightarrow> submit_try data s
        | Rejected err \<Rightarrow> submit_catch err s)"

definition submit_handler :: "chat_response outcome \<Rightarrow> state \<Rightarrow> state" where
  "submit_handler oc s =
     (case submit_begin s of None \<Rightarrow> s | Some s1 \<Rightarrow> submit_resolve oc s1)"

text \<open>The user puts \<open>text\<close> into the input field and submits the form.\<close>

definition submitUserMessage :: "jsstring \<Rightarrow> chat_response outcome \<Rightarrow> state \<Rightarrow> state" where
  "submitUserMessage text oc s = submit_handler oc (s\<lparr>chatInput_value := text\<rparr>)"

subsection \<open>\<^verbatim>\<open>sendControlMessage\<close>\<close>

datatype action = Next | Replay

definition action_token :: "action \<Rightarrow> jsstring" where
  "action_token a = (case a of Next \<Rightarrow> js ''next'' | Replay \<Rightarrow> js ''replay'')"

definition control_begin :: "action \<Rightarrow> state \<Rightarrow> state" where
  "control_begin a s =
     (let s = s\<lparr>chatInput_disabled := True\<rparr>;
          s = s\<lparr>sendBtn_disabled := True\<rparr>;
          s = s\<lparr>nextLessonBtn_disabled := True\<rparr>;
          s = s\<lparr>replayLessonBtn_disabled := True\<rparr>;
          s = showTypingIndicator s
      in fetch (PostChat (action_token a)) s)"

definition control_try :: "action \<Rightarrow> chat_response \<Rightarrow> state \<Rightarrow> state" where
  "control_try a data s =
     (let s = hideTypingIndicator s in
      if truthy_string (resp_error data) then
        addSystemMessage (js ''Error: '' @ the (resp_error data)) s
      else
        let s = addAIMessage (resp_message data) s;
            s = (if a = Next then
                   updateLessonProgress (s\<lparr>currentLessonIndex := currentLessonIndex s + 1\<rparr>)
                 else s)
        in
          if truthy_bool (resp_is_finished data) then
            showToast completed_notice (s\<lparr>lessonControls_display := ''none''\<rparr>)
          else s)"

definition control_catch :: "failure \<Rightarrow> state \<Rightarrow> state" where
  "control_catch err s =
     (let s = hideTypingIndicator s;
          s = addSystemMessage (js ''Failed to process request. Please try again.'') s
      in s\<lparr>console_errors := console_errors s @ [(''Error:'', err)]\<rparr>)"

definition control_finally :: "state \<Rightarrow> state" where
  "control_finally s =
     s\<lparr>chatInput_disabled := False, sendBtn_disabled := False,
       nextLessonBtn_disabled := False, replayLessonBtn_disabled := False\<rparr>"

definition control_resolve :: "action \<Rightarrow> chat_response outcome \<Rightarrow> state \<Rightarrow> state" where
  "control_resolve a oc s =
     control_finally
       (case oc of
          Resolved data \<Rightarrow> control_try a data s
        | Rejected err \<Rightarrow> control_catch err s)"

definition sendControlMessage :: "action \<Rightarrow> chat_response outcome \<Rightarrow> state \<Rightarrow> state" where
  "sendControlMessage a oc s = control_resolve a oc (control_begin a s)"

text \<open>The click handlers of the two lesson buttons.\<close>

definition advanceLesson :: "chat_response outcome \<Rightarrow> state \<Rightarrow> state" where
  "advanceLesson = sendControlMessage Next"

definition replayLesson :: "chat_response outcome \<Rightarrow> state \<Rightarrow> state" where
  "replayLesson = sendControlMessage Replay"

subsection \<open>\<^verbatim>\<open>loadSession\<close>\<close>

definition historyView :: "history_message \<Rightarrow> node" where
  "historyView msg =
     (if hist_sender msg = js ''user'' then
        MessageDiv ''message user'' UserAvatar (escapeHtml (hist_message msg))
          (Some (HistoryTime (hist_timestamp msg)))
      else
        MessageDiv ''message ai'' RobotAvatar (formatMessage (hist_message msg))
          (Some (HistoryTime (hist_timestamp msg))))"

definition loadSession :: "session_response outcome \<Rightarrow> state \<Rightarrow> state" where
  "loadSession oc s =
     (let s = fetch GetSession s in
      case oc of
        Resolved data \<Rightarrow>
          if nonempty_array (resp_history data) then
            let s = s\<lparr>chatMessages := remove_welcome (chatMessages s)\<rparr>;
                s = foldl (\<lambda>s msg. s\<lparr>chatMessages := chatMessages s @ [historyView msg]\<rparr>)
                      s (the (resp_history data));
                s = s\<lparr>isFirstMessage := False\<rparr>;
                s = s\<lparr>lessonControls_display := ''flex''\<rparr>
            in scrollToBottom s
          else s
      | Rejected err \<Rightarrow>
          s\<lparr>console_errors := console_errors s @ [(''Failed to load session:'', err)]\<rparr>)"

subsection \<open>Sequences of operations\<close>

text \<open>
  One event is one handler run to its end, with the outcome of its request. \<open>run\<close>
  applies a sequence of events from the left.
\<close>

datatype event =
    Load "session_response outcome"
  | Submit jsstring "chat_response outcome"
  | Control action "chat_response outcome"

fun step :: "state \<Rightarrow> event \<Rightarrow> state" where
  "step s (Load oc) = loadSession oc s"
| "step s (Submit text oc) = submitUserMessage text oc s"
| "step s (Control a oc) = sendControlMessage a oc s"

definition run :: "state \<Rightarrow> event list \<Rightarrow> state" where
  "run s evs = foldl step s evs"

text \<open>A control action that the server acknowledged: a parsed body with no truthy error.\<close>

fun acknowledged :: "action \<Rightarrow> event \<Rightarrow> bool" where
  "acknowledged a (Control b (Resolved data)) = (a = b \<and> \<not> truthy_string (resp_error data))"
| "acknowledged a _ = False"

text \<open>
  A successful exchange: a submitted, non-blank message or a control action answered by
  a body with no truthy error. Before the first one, either \<^verbatim>\<open>isFirstMessage\<close> still
  holds or a replayed history has already revealed the lesson controls.
\<close>

fun successful_exchange :: "event \<Rightarrow> bool" where
  "successful_exchange (Submit text (Resolved data)) =
     (trim text \<noteq> [] \<and> \<not> truthy_string (resp_error data))"
| "successful_exchange (Control a (Resolved data)) = (\<not> truthy_string (resp_error data))"
| "successful_exchange _ = False"

definition awaiting_first :: "state \<Rightarrow> bool" where
  "awaiting_first s \<longleftrightarrow> isFirstMessage s \<or> lessonControls_display s = ''flex''"

subsection \<open>The three kinds of message view\<close>

text \<open>
  What the spec calls a user Message, an AI Message and a system Message, as nodes of the
  transcript: the user's text and a system text are escaped, an AI text is formatted.
\<close>

definition userMessage :: "jsstring \<Rightarrow> node" where
  "userMessage text = MessageDiv ''message user'' UserAvatar (escapeHtml text) (Some CurrentTime)"

definition aiMessage :: "jsstring \<Rightarrow> node" where
  "aiMessage text = MessageDiv ''message ai'' RobotAvatar (formatMessage text) (Some CurrentTime)"

definition systemMessage :: "jsstring \<Rightarrow> node" where
  "systemMessage text = MessageDiv ''message ai'' WarningAvatar (escapeHtml text) None"

fun node_avatar :: "node \<Rightarrow> avatar option" where
  "node_avatar WelcomeMessage = None"
| "node_avatar (MessageDiv cls av bubble time) = Some av"

text \<open>The message appended when a chat request has resolved with \<open>data\<close>.\<close>

definition reply_to :: "chat_response \<Rightarrow> node" where
  "reply_to data =
     (if truthy_string (resp_error data) then systemMessage (js ''Error: '' @ the (resp_error data))
      else aiMessage (resp_message data))"

subsection \<open>The sidebar as a function of the plan and the index\<close>

text \<open>
  What the sidebar shows for a plan and a current index: one entry per lesson, in the
  plan's order, each with the class that marks it and its escaped title.
\<close>

definition sidebar_classes :: "jsstring list \<Rightarrow> nat \<Rightarrow> string list" where
  "sidebar_classes plan current = map (\<lambda>index. lesson_class index current) [0..<length plan]"

definition sidebar_in_step :: "state \<Rightarrow> bool" where
  "sidebar_in_step s \<longleftrightarrow>
     map item_class (lessonList s) = sidebar_classes (currentLessonPlan s) (currentLessonIndex s) \<and>
     map item_text (lessonList s) = map escapeHtml (currentLessonPlan s)"

definition in_step_if_plan :: "state \<Rightarrow> bool" where
  "in_step_if_plan s \<longleftrightarrow> (currentLessonPlan s \<noteq> [] \<longrightarrow> sidebar_in_step s)"

subsection \<open>The rendering pipeline of the spec\<close>

text \<open>
  The reference pipeline is written here on its own, as relations between a text and
  its rendering, without the functions of the source. Escaping replaces the ampersand,
  the no-break space and the two angle brackets by character references and copies
  every other code unit.
\<close>

inductive html_escaped :: "jsstring \<Rightarrow> jsstring \<Rightarrow> bool" where
  Nothing: "html_escaped [] []"
| Amp: "html_escaped s e \<Longrightarrow> html_escaped (0x26 # s) (js ''&amp;'' @ e)"
| Nbsp: "html_escaped s e \<Longrightarrow> html_escaped (0xA0 # s) (js ''&nbsp;'' @ e)"
| Lt: "html_escaped s e \<Longrightarrow> html_escaped (0x3C # s) (js ''&lt;'' @ e)"
| Gt: "html_escaped s e \<Longrightarrow> html_escaped (0x3E # s) (js ''&gt;'' @ e)"
| Plain: "c \<noteq> 0x26 \<Longrightarrow> c \<noteq> 0xA0 \<Longrightarrow> c \<noteq> 0x3C \<Longrightarrow> c \<noteq> 0x3E \<Longrightarrow> html_escaped s e \<Longrightarrow>
      html_escaped (c # s) (c # e)"

text \<open>
  A marker pair at the start of \<open>s\<close>: the delimiter, a non-empty run \<open>g\<close>, the delimiter
  again, matched non-greedily, that is with the shortest such run. \<open>ok\<close> says which code
  units the run may hold. The spec's words put no condition on them (\<open>any_unit\<close>); the
  pipeline the code follows keeps a run within one line (\<open>same_line\<close>).
\<close>

definition any_unit :: "cu \<Rightarrow> bool" where
  "any_unit c \<longleftrightarrow> True"

definition same_line :: "cu \<Rightarrow> bool" where
  "same_line c \<longleftrightarrow> c \<noteq> 0x0A \<and> c \<noteq> 0x0D \<and> c \<noteq> 0x2028 \<and> c \<noteq> 0x2029"

definition shortest_delimited ::
  "(cu \<Rightarrow> bool) \<Rightarrow> jsstring \<Rightarrow> jsstring \<Rightarrow> jsstring \<Rightarrow> jsstring \<Rightarrow> bool" where
  "shortest_delimited ok d s g rest \<longleftrightarrow>
     s = d @ g @ d @ rest \<and> g \<noteq> [] \<and> (\<forall>c \<in> set g. ok c) \<and>
     (\<forall>g' rest'. s = d @ g' @ d @ rest' \<and> g' \<noteq> [] \<longrightarrow> length g \<le> length g')"

text \<open>
  One pass over a text: from the left, a marker pair at the current position is replaced
  by its tagged group and the pass goes on after the pair; where no pair starts, the
  code unit is copied.
\<close>

inductive emphasised ::
  "(cu \<Rightarrow> bool) \<Rightarrow> jsstring \<Rightarrow> jsstring \<Rightarrow> jsstring \<Rightarrow> jsstring \<Rightarrow> jsstring \<Rightarrow> bool"
  for ok d opn cls where
  End: "emphasised ok d opn cls [] []"
| Pair: "shortest_delimited ok d s g rest \<Longrightarrow> emphasised ok d opn cls rest out \<Longrightarrow>
      emphasised ok d opn cls s (opn @ g @ cls @ out)"
| Copy: "\<not> (\<exists>g rest. shortest_delimited ok d (c # s) g rest) \<Longrightarrow>
      emphasised ok d opn cls s out \<Longrightarrow> emphasised ok d opn cls (c # s) (c # out)"

text \<open>Every line feed becomes a line break; every other code unit is copied.\<close>

inductive line_broken :: "jsstring \<Rightarrow> jsstring \<Rightarrow> bool" where
  Over: "line_broken [] []"
| Break: "line_broken s out \<Longrightarrow> line_broken (0x0A # s) (js ''<br>'' @ out)"
| Same: "c \<noteq> 0x0A \<Longrightarrow> line_broken s out \<Longrightarrow> line_broken (c # s) (c # out)"

text \<open>The reference pipeline: escape, then bold, then italic, then line breaks.\<close>

definition reference_render :: "(cu \<Rightarrow> bool) \<Rightarrow> jsstring \<Rightarrow> jsstring \<Rightarrow> bool" where
  "reference_render ok text out \<longleftrightarrow>
     (\<exists>escaped bold italic.
        html_escaped text escaped \<and>
        emphasised ok (js ''**'') (js ''<strong>'') (js ''</strong>'') escaped bold \<and>
        emphasised ok (js ''*'') (js ''<em>'') (js ''</em>'') bold italic \<and>
        line_broken italic out)"

text \<open>
  The reference pass, computed, for any \<open>ok\<close>: \<open>first_close\<close> looks for the first place
  after at least one code unit where the delimiter follows, and gives up at a code unit
  that is not \<open>ok\<close>; \<open>replace_pairs\<close> runs the pass.
\<close>

fun first_close :: "(cu \<Rightarrow> bool) \<Rightarrow> jsstring \<Rightarrow> jsstring \<Rightarrow> (jsstring \<times> jsstring) option" where
  "first_close ok d [] = None"
| "first_close ok d (c # s) =
     (if \<not> ok c then None
      else if prefix d s then Some ([c], drop (length d) s)
      else (case first_close ok d s of
              None \<Rightarrow> None
            | Some (g, rest) \<Rightarrow> Some (c # g, rest)))"

definition pair_here :: "(cu \<Rightarrow> bool) \<Rightarrow> jsstring \<Rightarrow> jsstring \<Rightarrow> (jsstring \<times> jsstring) option" where
  "pair_here ok d s = (if prefix d s then first_close ok d (drop (length d) s) else None)"

lemma first_close_shorter:
  "first_close ok d s = Some (g, rest) \<Longrightarrow> length rest < length s"
proof (induction s arbitrary: g)
  case Nil
  then show ?case by simp
next
  case (Cons c s)
  show ?case
  proof (cases "prefix d s")
    case True
    with Cons.prems show ?thesis by (auto split: if_splits)
  next
    case False
    with Cons.prems obtain g' where "first_close ok d s = Some (g', rest)"
      by (auto split: if_splits option.splits)
    from Cons.IH [OF this] show ?thesis by simp
  qed
qed

lemma pair_here_shorter:
  "pair_here ok d s = Some (g, rest) \<Longrightarrow> length rest < length s"
  by (auto simp: pair_here_def split: if_splits dest!: first_close_shorter)

function replace_pairs ::
  "(cu \<Rightarrow> bool) \<Rightarrow> jsstring \<Rightarrow> jsstring \<Rightarrow> jsstring \<Rightarrow> jsstring \<Rightarrow> jsstring" where
  "replace_pairs ok d opn cls [] = []"
| "replace_pairs ok d opn cls (c # s) =
     (case pair_here ok d (c # s) of
        Some (g, rest) \<Rightarrow> opn @ g @ cls @ replace_pairs ok d opn cls rest
      | None \<Rightarrow> c # replace_pairs ok d opn cls s)"
  by pat_completeness auto
termination
  by (relation "measure (\<lambda>(ok, d, opn, cls, s). length s)")
    (auto dest: pair_here_shorter)

text \<open>
  Markup that cannot execute: text without angle brackets, interleaved with the five
  attribute-free tags the formatter writes.
\<close>

definition format_tags :: "jsstring list" where
  "format_tags = [js ''<strong>'', js ''</strong>'', js ''<em>'', js ''</em>'', js ''<br>'']"

inductive inert_html :: "jsstring \<Rightarrow> bool" where
  Empty: "inert_html []"
| Text: "c \<noteq> 0x3C \<Longrightarrow> c \<noteq> 0x3E \<Longrightarrow> inert_html s \<Longrightarrow> inert_html (c # s)"
| Tag: "t \<in> set format_tags \<Longrightarrow> inert_html s \<Longrightarrow> inert_html (t @ s)"

text \<open>
  \<open>marks_replaced s out\<close>: \<open>out\<close> is \<open>s\<close> with some asterisks and line feeds taken out
  or replaced by one of the five tags, and nothing else changed.
\<close>

inductive marks_replaced :: "jsstring \<Rightarrow> jsstring \<Rightarrow> bool" where
  Done: "marks_replaced [] []"
| Keep: "marks_replaced s out \<Longrightarrow> marks_replaced (c # s) (c # out)"
| Drop: "c = 0x2A \<or> c = 0x0A \<Longrightarrow> marks_replaced s out \<Longrightarrow> marks_replaced (c # s) out"
| Put: "c = 0x2A \<or> c = 0x0A \<Longrightarrow> t \<in> set format_tags \<Longrightarrow> marks_replaced s out \<Longrightarrow>
      marks_replaced (c # s) (t @ out)"

section \<open>Properties\<close>

subsection \<open>What each handler does to the page\<close>

lemmas helper_defs =
  showTypingIndicator_def hideTypingIndicator_def scrollToBottom_def showToast_def fetch_def
  addUserMessage_def addAIMessage_def addSystemMessage_def
  userMessage_def aiMessage_def systemMessage_def

lemma updateLessonProgress_frame [simp]:
  "currentLessonPlan (updateLessonProgress s) = currentLessonPlan s"
  "currentLessonIndex (updateLessonProgress s) = currentLessonIndex s"
  "isFirstMessage (updateLessonProgress s) = isFirstMessage s"
  "chatMessages (updateLessonProgress s) = chatMessages s"
  "chatInput_disabled (updateLessonProgress s) = chatInput_disabled s"
  "sendBtn_disabled (updateLessonProgress s) = sendBtn_disabled s"
  "nextLessonBtn_disabled (updateLessonProgress s) = nextLessonBtn_disabled s"
  "replayLessonBtn_disabled (updateLessonProgress s) = replayLessonBtn_disabled s"
  "typingIndicator_display (updateLessonProgress s) = typingIndicator_display s"
  "lessonControls_display (updateLessonProgress s) = lessonControls_display s"
  "toasts (updateLessonProgress s) = toasts s"
  "requests (updateLessonProgress s) = requests s"
  "console_errors (updateLessonProgress s) = console_errors s"
  by (simp_all add: updateLessonProgress_def)

lemma updateLessonPlan_frame [simp]:
  "currentLessonPlan (updateLessonPlan p s) = currentLessonPlan s"
  "currentLessonIndex (updateLessonPlan p s) = currentLessonIndex s"
  "isFirstMessage (updateLessonPlan p s) = isFirstMessage s"
  "chatMessages (updateLessonPlan p s) = chatMessages s"
  "chatInput_disabled (updateLessonPlan p s) = chatInput_disabled s"
  "sendBtn_disabled (updateLessonPlan p s) = sendBtn_disabled s"
  "nextLessonBtn_disabled (updateLessonPlan p s) = nextLessonBtn_disabled s"
  "replayLessonBtn_disabled (updateLessonPlan p s) = replayLessonBtn_disabled s"
  "typingIndicator_display (updateLessonPlan p s) = typingIndicator_display s"
  "lessonControls_display (updateLessonPlan p s) = lessonControls_display s"
  "toasts (updateLessonPlan p s) = toasts s"
  "requests (updateLessonPlan p s) = requests s"
  "console_errors (updateLessonPlan p s) = console_errors s"
  by (simp_all add: updateLessonPlan_def)

text \<open>The page when a non-blank message has been sent and the request is in flight.\<close>

lemma submit_begin_sent:
  assumes "trim text \<noteq> []"
  shows "submit_begin (s\<lparr>chatInput_value := text\<rparr>) =
     Some (s\<lparr>chatInput_value := [], chatInput_disabled := True, sendBtn_disabled := True,
             typingIndicator_display := ''flex'',
             chatMessages := remove_welcome (chatMessages s) @ [userMessage (trim text)],
             scroll_timers := Suc (scroll_timers s),
             requests := requests s @ [PostChat (trim text)]\<rparr>)"
  using assms by (simp add: submit_begin_def helper_defs Let_def)

lemma submit_begin_blank:
  assumes "trim text = []"
  shows "submit_begin (s\<lparr>chatInput_value := text\<rparr>) = None"
  using assms by (simp add: submit_begin_def)

lemma submitUserMessage_sent:
  assumes "submit_begin (s\<lparr>chatInput_value := text\<rparr>) = Some s1"
  shows "submitUserMessage text oc s = submit_resolve oc s1"
  using assms by (simp add: submitUserMessage_def submit_handler_def)

lemma submit_resolve_resolved:
  "chatMessages (submit_resolve (Resolved data) t) = chatMessages t @ [reply_to data]"
  "requests (submit_resolve (Resolved data) t) = requests t"
  "console_errors (submit_resolve (Resolved data) t) = console_errors t"
  by (simp_all add: submit_resolve_def submit_try_def submit_finally_def reply_to_def
      helper_defs Let_def)

lemma submit_resolve_rejected:
  "chatMessages (submit_resolve (Rejected err) t) =
     chatMessages t @ [systemMessage (js ''Failed to send message. Please try again.'')]"
  "requests (submit_resolve (Rejected err) t) = requests t"
  "currentLessonPlan (submit_resolve (Rejected err) t) = currentLessonPlan t"
  "currentLessonIndex (submit_resolve (Rejected err) t) = currentLessonIndex t"
  "isFirstMessage (submit_resolve (Rejected err) t) = isFirstMessage t"
  "lessonList (submit_resolve (Rejected err) t) = lessonList t"
  by (simp_all add: submit_resolve_def submit_catch_def submit_finally_def helper_defs Let_def)

lemma submit_resolve_error:
  assumes "truthy_string (resp_error data)"
  shows "currentLessonPlan (submit_resolve (Resolved data) t) = currentLessonPlan t"
    "currentLessonIndex (submit_resolve (Resolved data) t) = currentLessonIndex t"
    "isFirstMessage (submit_resolve (Resolved data) t) = isFirstMessage t"
    "lessonList (submit_resolve (Resolved data) t) = lessonList t"
  using assms
  by (simp_all add: submit_resolve_def submit_try_def submit_catch_def submit_finally_def helper_defs Let_def)

lemma control_resolved:
  "chatMessages (sendControlMessage a (Resolved data) s) = chatMessages s @ [reply_to data]"
  "requests (sendControlMessage a (Resolved data) s) = requests s @ [PostChat (action_token a)]"
  "console_errors (sendControlMessage a (Resolved data) s) = console_errors s"
  "currentLessonPlan (sendControlMessage a (Resolved data) s) = currentLessonPlan s"
  "isFirstMessage (sendControlMessage a (Resolved data) s) = isFirstMessage s"
  "currentLessonIndex (sendControlMessage a (Resolved data) s) =
     (if a = Next \<and> \<not> truthy_string (resp_error data) then currentLessonIndex s + 1
      else currentLessonIndex s)"
  by (simp_all add: sendControlMessage_def control_begin_def control_resolve_def control_try_def
      control_finally_def reply_to_def helper_defs Let_def)

lemma control_rejected:
  "chatMessages (sendControlMessage a (Rejected err) s) =
     chatMessages s @ [systemMessage (js ''Failed to process request. Please try again.'')]"
  "requests (sendControlMessage a (Rejected err) s) = requests s @ [PostChat (action_token a)]"
  "currentLessonPlan (sendControlMessage a (Rejected err) s) = currentLessonPlan s"
  "currentLessonIndex (sendControlMessage a (Rejected err) s) = currentLessonIndex s"
  "isFirstMessage (sendControlMessage a (Rejected err) s) = isFirstMessage s"
  "lessonList (sendControlMessage a (Rejected err) s) = lessonList s"
  by (simp_all add: sendControlMessage_def control_begin_def control_resolve_def control_catch_def
      control_finally_def helper_defs Let_def)

subsection \<open>Sending a message\<close>

text \<open>
  C2, as amended. A submission whose trimmed text is empty appends no message and issues
  no request. For a submission whose trimmed text is not empty, the page at the moment
  the request is in flight holds exactly one new entry, the user Message of the trimmed
  text (the welcome placeholder apart), and exactly one new request; when the request
  has resolved or rejected, exactly one further entry is appended and no further request
  made: an AI Message when the body has no error or an empty one, a system Message with
  the text \<^verbatim>\<open>Error: \<close> and the error when the error is a non-empty string, and the
  fixed system Message when the request failed. The user Message stays.
\<close>

theorem submitUserMessage_transcript:
  assumes "trim blank = []" and "trim text \<noteq> []"
  shows "chatMessages (submitUserMessage blank oc s) = chatMessages s \<and>
         requests (submitUserMessage blank oc s) = requests s \<and>
         (\<exists>s1. submit_begin (s\<lparr>chatInput_value := text\<rparr>) = Some s1 \<and>
            chatMessages s1 = remove_welcome (chatMessages s) @ [userMessage (trim text)] \<and>
            requests s1 = requests s @ [PostChat (trim text)] \<and>
            submitUserMessage text oc s = submit_resolve oc s1 \<and>
            requests (submit_resolve oc s1) = requests s1 \<and>
            chatMessages (submit_resolve oc s1) = chatMessages s1 @
              [case oc of
                 Resolved data \<Rightarrow>
                   if truthy_string (resp_error data)
                   then systemMessage (js ''Error: '' @ the (resp_error data))
                   else aiMessage (resp_message data)
               | Rejected err \<Rightarrow> systemMessage (js ''Failed to send message. Please try again.'')])"
proof -
  from assms(1) have blank: "submitUserMessage blank oc s = s\<lparr>chatInput_value := blank\<rparr>"
    by (simp add: submitUserMessage_def submit_handler_def submit_begin_blank)
  let ?s1 = "s\<lparr>chatInput_value := [], chatInput_disabled := True, sendBtn_disabled := True,
             typingIndicator_display := ''flex'',
             chatMessages := remove_welcome (chatMessages s) @ [userMessage (trim text)],
             scroll_timers := Suc (scroll_timers s),
             requests := requests s @ [PostChat (trim text)]\<rparr>"
  have b: "submit_begin (s\<lparr>chatInput_value := text\<rparr>) = Some ?s1"
    by (rule submit_begin_sent [OF assms(2)])
  have r: "requests (submit_resolve oc ?s1) = requests ?s1"
    by (cases oc) (simp_all only: submit_resolve_resolved submit_resolve_rejected)
  have m: "chatMessages (submit_resolve oc ?s1) = chatMessages ?s1 @
              [case oc of
                 Resolved data \<Rightarrow>
                   if truthy_string (resp_error data)
                   then systemMessage (js ''Error: '' @ the (resp_error data))
                   else aiMessage (resp_message data)
               | Rejected err \<Rightarrow> systemMessage (js ''Failed to send message. Please try again.'')]"
    by (cases oc) (simp_all add: submit_resolve_resolved submit_resolve_rejected reply_to_def)
  show ?thesis
    using blank b r m submitUserMessage_sent [OF b, of oc] by simp
qed

theorem submitUserMessage_transcript_witness:
  "trim (js ''   '') = [] \<and> trim (js ''hi'') \<noteq> [] \<and>
   chatMessages (submitUserMessage (js ''   '') (Rejected []) initial_state) = [WelcomeMessage] \<and>
   requests (submitUserMessage (js ''   '') (Rejected []) initial_state) = []"
proof -
  have b: "trim (js ''   '') = []" by code_simp
  have t: "trim (js ''hi'') \<noteq> []" by code_simp
  from submitUserMessage_transcript [OF b t, of "Rejected []" initial_state]
  show ?thesis using b t by (simp add: initial_state_def)
qed

theorem empty_error_counterexample:
  "resp_error \<lparr>resp_message = js ''ok'', resp_lesson_plan = Some [js ''A''],
       resp_is_finished = None, resp_error = Some []\<rparr> \<noteq> None \<and>
   map node_avatar (chatMessages (submitUserMessage (js ''hi'')
     (Resolved \<lparr>resp_message = js ''ok'', resp_lesson_plan = Some [js ''A''],
       resp_is_finished = None, resp_error = Some []\<rparr>) initial_state))
     = [Some UserAvatar, Some RobotAvatar]"
proof -
  have t: "trim (js ''hi'') \<noteq> []" by code_simp
  show ?thesis
    by (simp add: submitUserMessage_sent [OF submit_begin_sent [OF t]] submit_resolve_resolved
        reply_to_def truthy_string_def initial_state_def userMessage_def aiMessage_def)
qed

subsection \<open>Restoring the controls\<close>

text \<open>
  C3. Whatever the outcome of the request (a body without error, a body with an error,
  a rejection), the input field and the send button, disabled and with the typing
  indicator shown while the request of a submitted message is in flight, are enabled
  again and the indicator hidden when \<^verbatim>\<open>submitUserMessage\<close> is done; the same holds for
  the input field, the send button and the two lesson buttons around a control action.
\<close>

theorem controls_restored:
  assumes "trim text \<noteq> []"
  shows "(\<exists>s1. submit_begin (s\<lparr>chatInput_value := text\<rparr>) = Some s1 \<and>
            chatInput_disabled s1 \<and> sendBtn_disabled s1 \<and> typingIndicator_display s1 = ''flex'' \<and>
            submitUserMessage text oc s = submit_resolve oc s1) \<and>
         \<not> chatInput_disabled (submitUserMessage text oc s) \<and>
         \<not> sendBtn_disabled (submitUserMessage text oc s) \<and>
         typingIndicator_display (submitUserMessage text oc s) = ''none'' \<and>
         chatInput_disabled (control_begin a s) \<and> sendBtn_disabled (control_begin a s) \<and>
         nextLessonBtn_disabled (control_begin a s) \<and> replayLessonBtn_disabled (control_begin a s) \<and>
         typingIndicator_display (control_begin a s) = ''flex'' \<and>
         \<not> chatInput_disabled (sendControlMessage a oc' s) \<and>
         \<not> sendBtn_disabled (sendControlMessage a oc' s) \<and>
         \<not> nextLessonBtn_disabled (sendControlMessage a oc' s) \<and>
         \<not> replayLessonBtn_disabled (sendControlMessage a oc' s) \<and>
         typingIndicator_display (sendControlMessage a oc' s) = ''none''"
proof -
  have sub: "\<not> chatInput_disabled (submit_resolve oc t) \<and> \<not> sendBtn_disabled (submit_resolve oc t) \<and>
      typingIndicator_display (submit_resolve oc t) = ''none''" for t
    by (cases oc) (simp_all add: submit_resolve_def submit_try_def submit_catch_def
        submit_finally_def helper_defs Let_def)
  have ctl: "\<not> chatInput_disabled (control_resolve a oc' t) \<and> \<not> sendBtn_disabled (control_resolve a oc' t) \<and>
      \<not> nextLessonBtn_disabled (control_resolve a oc' t) \<and>
      \<not> replayLessonBtn_disabled (control_resolve a oc' t) \<and>
      typingIndicator_display (control_resolve a oc' t) = ''none''" for t
    by (cases oc') (simp_all add: control_resolve_def control_try_def control_catch_def
        control_finally_def helper_defs Let_def)
  have beg: "chatInput_disabled (control_begin a s) \<and> sendBtn_disabled (control_begin a s) \<and>
         nextLessonBtn_disabled (control_begin a s) \<and> replayLessonBtn_disabled (control_begin a s) \<and>
         typingIndicator_display (control_begin a s) = ''flex''"
    by (simp add: control_begin_def helper_defs Let_def)
  from assms obtain s1 where s1: "submit_begin (s\<lparr>chatInput_value := text\<rparr>) = Some s1"
    and dis: "chatInput_disabled s1 \<and> sendBtn_disabled s1 \<and> typingIndicator_display s1 = ''flex''"
    by (simp add: submit_begin_def helper_defs Let_def)
  from s1 have eq: "submitUserMessage text oc s = submit_resolve oc s1"
    by (simp add: submitUserMessage_def submit_handler_def)
  show ?thesis
    using s1 dis eq sub [of s1] ctl [of "control_begin a s"] beg
    by (simp add: sendControlMessage_def)
qed

theorem controls_restored_witness:
  "trim (js ''hi'') \<noteq> [] \<and>
   \<not> chatInput_disabled (submitUserMessage (js ''hi'') (Rejected (js ''offline'')) initial_state) \<and>
   \<not> nextLessonBtn_disabled (sendControlMessage Next (Rejected (js ''offline'')) initial_state)"
proof -
  have h: "trim (js ''hi'') \<noteq> []" by code_simp
  from controls_restored [OF h, of initial_state "Rejected (js ''offline'')" Next "Rejected (js ''offline'')"]
  show ?thesis using h by simp
qed

subsection \<open>Application-level errors\<close>

text \<open>
  C4, as amended. When the body of a resolved request carries a non-empty \<^verbatim>\<open>error\<close>
  string, \<^verbatim>\<open>submitUserMessage\<close> and both control actions append one system Message whose
  text is \<^verbatim>\<open>Error: \<close> followed by that string, log nothing as a failure, and leave
  \<^verbatim>\<open>currentLessonPlan\<close>, \<^verbatim>\<open>currentLessonIndex\<close> and \<^verbatim>\<open>isFirstMessage\<close> as they were.
\<close>

theorem application_error_surfaced:
  assumes "trim text \<noteq> []" and "resp_error data = Some e" and "e \<noteq> []"
  shows "chatMessages (submitUserMessage text (Resolved data) s) =
           remove_welcome (chatMessages s) @ [userMessage (trim text), systemMessage (js ''Error: '' @ e)] \<and>
         console_errors (submitUserMessage text (Resolved data) s) = console_errors s \<and>
         currentLessonPlan (submitUserMessage text (Resolved data) s) = currentLessonPlan s \<and>
         currentLessonIndex (submitUserMessage text (Resolved data) s) = currentLessonIndex s \<and>
         isFirstMessage (submitUserMessage text (Resolved data) s) = isFirstMessage s \<and>
         chatMessages (sendControlMessage a (Resolved data) s) =
           chatMessages s @ [systemMessage (js ''Error: '' @ e)] \<and>
         console_errors (sendControlMessage a (Resolved data) s) = console_errors s \<and>
         currentLessonPlan (sendControlMessage a (Resolved data) s) = currentLessonPlan s \<and>
         currentLessonIndex (sendControlMessage a (Resolved data) s) = currentLessonIndex s \<and>
         isFirstMessage (sendControlMessage a (Resolved data) s) = isFirstMessage s"
proof -
  from assms have tr: "truthy_string (resp_error data)"
    by (simp add: truthy_string_def)
  from assms have rep: "reply_to data = systemMessage (js ''Error: '' @ e)"
    by (simp add: reply_to_def truthy_string_def)
  note sent = submitUserMessage_sent [OF submit_begin_sent [OF assms(1)]]
  show ?thesis
    by (simp add: sent submit_resolve_resolved submit_resolve_error [OF tr] control_resolved rep tr)
qed

theorem application_error_surfaced_witness:
  "trim (js ''hi'') \<noteq> [] \<and>
   chatMessages (sendControlMessage Next
     (Resolved \<lparr>resp_message = [], resp_lesson_plan = None, resp_is_finished = None,
        resp_error = Some (js ''No active lesson'')\<rparr>) initial_state) =
     [WelcomeMessage, systemMessage (js ''Error: No active lesson'')] \<and>
   currentLessonIndex (sendControlMessage Next
     (Resolved \<lparr>resp_message = [], resp_lesson_plan = None, resp_is_finished = None,
        resp_error = Some (js ''No active lesson'')\<rparr>) initial_state) = 0"
proof -
  have t: "trim (js ''hi'') \<noteq> []" by code_simp
  have e: "js ''No active lesson'' \<noteq> []" by (simp add: js_def)
  have c: "js ''Error: '' @ js ''No active lesson'' = js ''Error: No active lesson''"
    by (simp add: js_def)
  from application_error_surfaced [OF t _ e, of
      "\<lparr>resp_message = [], resp_lesson_plan = None, resp_is_finished = None,
        resp_error = Some (js ''No active lesson'')\<rparr>" initial_state Next]
  show ?thesis using t c by (simp add: initial_state_def)
qed

theorem error_field_counterexample:
  "resp_error \<lparr>resp_message = js ''ok'', resp_lesson_plan = Some [js ''A''],
       resp_is_finished = None, resp_error = Some []\<rparr> = Some [] \<and>
   currentLessonPlan initial_state = [] \<and>
   currentLessonPlan (submitUserMessage (js ''hi'')
     (Resolved \<lparr>resp_message = js ''ok'', resp_lesson_plan = Some [js ''A''],
       resp_is_finished = None, resp_error = Some []\<rparr>) initial_state) = [js ''A''] \<and>
   currentLessonIndex (sendControlMessage Next
     (Resolved \<lparr>resp_message = js ''ok'', resp_lesson_plan = Some [js ''A''],
       resp_is_finished = None, resp_error = Some []\<rparr>) initial_state) = 1 \<and>
   chatMessages (sendControlMessage Next
     (Resolved \<lparr>resp_message = js ''ok'', resp_lesson_plan = Some [js ''A''],
       resp_is_finished = None, resp_error = Some []\<rparr>) initial_state) =
     [WelcomeMessage, aiMessage (js ''ok'')]"
proof -
  have t: "trim (js ''hi'') \<noteq> []" by code_simp
  show ?thesis
    by (simp add: submitUserMessage_sent [OF submit_begin_sent [OF t]] control_resolved
        reply_to_def truthy_string_def initial_state_def
        submit_resolve_def submit_try_def submit_finally_def nonempty_array_def helper_defs Let_def)
qed

subsection \<open>Transport and parse failures\<close>

text \<open>
  C5. When the request of \<^verbatim>\<open>submitUserMessage\<close> or of a control action rejects, whatever
  the reason, one system Message with a fixed text is appended, and the lesson plan, the
  lesson index and the sidebar list are what they were before the action.
\<close>

theorem failure_is_atomic:
  assumes "trim text \<noteq> []"
  shows "chatMessages (submitUserMessage text (Rejected err) s) =
           remove_welcome (chatMessages s) @
             [userMessage (trim text), systemMessage (js ''Failed to send message. Please try again.'')] \<and>
         currentLessonPlan (submitUserMessage text (Rejected err) s) = currentLessonPlan s \<and>
         currentLessonIndex (submitUserMessage text (Rejected err) s) = currentLessonIndex s \<and>
         lessonList (submitUserMessage text (Rejected err) s) = lessonList s \<and>
         chatMessages (sendControlMessage a (Rejected err) s) =
           chatMessages s @ [systemMessage (js ''Failed to process request. Please try again.'')] \<and>
         currentLessonPlan (sendControlMessage a (Rejected err) s) = currentLessonPlan s \<and>
         currentLessonIndex (sendControlMessage a (Rejected err) s) = currentLessonIndex s \<and>
         lessonList (sendControlMessage a (Rejected err) s) = lessonList s"
  by (simp add: submitUserMessage_sent [OF submit_begin_sent [OF assms]]
      submit_resolve_rejected control_rejected)

theorem failure_is_atomic_witness:
  "trim (js ''hi'') \<noteq> [] \<and>
   chatMessages (submitUserMessage (js ''hi'') (Rejected (js ''TypeError: Failed to fetch'')) initial_state) =
     [userMessage (js ''hi''), systemMessage (js ''Failed to send message. Please try again.'')] \<and>
   currentLessonIndex (submitUserMessage (js ''hi'') (Rejected (js ''TypeError: Failed to fetch'')) initial_state) = 0"
proof -
  have t: "trim (js ''hi'') \<noteq> []" by code_simp
  have t': "trim (js ''hi'') = js ''hi''" by code_simp
  from failure_is_atomic [OF t, of "js ''TypeError: Failed to fetch''" initial_state Next]
  show ?thesis using t t' by (simp add: initial_state_def)
qed

subsection \<open>Further facts about the handlers\<close>

lemma submit_resolve_finished:
  assumes "\<not> truthy_string (resp_error data)" and "truthy_bool (resp_is_finished data)"
  shows "lessonControls_display (submit_resolve (Resolved data) t) = ''none''"
    "toasts (submit_resolve (Resolved data) t) = toasts t @ [completed_notice]"
  using assms
  by (simp_all add: submit_resolve_def submit_try_def submit_finally_def helper_defs Let_def)

lemma submit_resolve_unfinished:
  assumes "\<not> truthy_string (resp_error data)" and "\<not> truthy_bool (resp_is_finished data)"
  shows "lessonControls_display (submit_resolve (Resolved data) t) =
           (if isFirstMessage t then ''flex'' else lessonControls_display t)"
    "isFirstMessage (submit_resolve (Resolved data) t) = False"
    "toasts (submit_resolve (Resolved data) t) = toasts t"
  using assms
  by (simp_all add: submit_resolve_def submit_try_def submit_finally_def helper_defs Let_def)

lemma control_finished:
  assumes "\<not> truthy_string (resp_error data)" and "truthy_bool (resp_is_finished data)"
  shows "lessonControls_display (sendControlMessage a (Resolved data) s) = ''none''"
    "toasts (sendControlMessage a (Resolved data) s) = toasts s @ [completed_notice]"
  using assms
  by (simp_all add: sendControlMessage_def control_begin_def control_resolve_def control_try_def
      control_finally_def helper_defs Let_def)

lemma foldl_append_views:
  "foldl (\<lambda>s msg. s\<lparr>chatMessages := chatMessages s @ [f msg]\<rparr>) s h =
     s\<lparr>chatMessages := chatMessages s @ map f h\<rparr>"
  by (induction h arbitrary: s) simp_all

lemma remove_welcome_remove1: "remove_welcome ms = remove1 WelcomeMessage ms"
  by (induction ms) auto

lemma foldl_append_items:
  "foldl (\<lambda>items (index, lesson). items @ [f index lesson]) acc xs =
     acc @ map (\<lambda>(index, lesson). f index lesson) xs"
  by (induction xs arbitrary: acc) auto

lemma reclass_classes:
  "map item_class (map (\<lambda>(index, item). item\<lparr>item_class := lesson_class index k\<rparr>) (enumerate n items)) =
     map (\<lambda>index. lesson_class index k) [n..<n + length items]"
  by (induction items arbitrary: n) (simp_all add: upt_conv_Cons del: upt_Suc)

lemma reclass_texts:
  "map item_text (map (\<lambda>(index, item). item\<lparr>item_class := lesson_class index k\<rparr>) (enumerate n items)) =
     map item_text items"
  by (induction items arbitrary: n) simp_all

lemma render_classes:
  "map item_class (map (\<lambda>(index, lesson). lessonItem k index lesson) (enumerate n plan)) =
     map (\<lambda>index. lesson_class index k) [n..<n + length plan]"
  by (induction plan arbitrary: n) (simp_all add: upt_conv_Cons lessonItem_def del: upt_Suc)

lemma render_texts:
  "map item_text (map (\<lambda>(index, lesson). lessonItem k index lesson) (enumerate n plan)) =
     map escapeHtml plan"
  by (induction plan arbitrary: n) (simp_all add: lessonItem_def)

lemma reclass_rendered:
  "map (\<lambda>(index, item). item\<lparr>item_class := lesson_class index k\<rparr>)
     (enumerate n (map (\<lambda>(index, lesson). lessonItem k index lesson) (enumerate n plan))) =
   map (\<lambda>(index, lesson). lessonItem k index lesson) (enumerate n plan)"
  by (induction plan arbitrary: n) (simp_all add: lessonItem_def)

lemma updateLessonPlan_list:
  assumes "currentLessonPlan s \<noteq> []"
  shows "lessonList (updateLessonPlan plan s) =
     map (\<lambda>(index, lesson). lessonItem (currentLessonIndex s) index lesson) (enumerate 0 plan)"
  using assms
  by (simp add: updateLessonPlan_def updateLessonProgress_def foldl_append_items reclass_rendered)

lemma submit_resolve_plan:
  assumes "\<not> truthy_string (resp_error data)" and "resp_lesson_plan data = Some plan" and "plan \<noteq> []"
  shows "currentLessonPlan (submit_resolve (Resolved data) t) = plan"
    "lessonList (submit_resolve (Resolved data) t) =
       map (\<lambda>(index, lesson). lessonItem (currentLessonIndex t) index lesson) (enumerate 0 plan)"
  using assms
  by (simp_all add: submit_resolve_def submit_try_def submit_finally_def helper_defs Let_def
      nonempty_array_def updateLessonPlan_list)

lemma submit_resolve_no_plan:
  assumes "\<not> nonempty_array (resp_lesson_plan data)"
  shows "currentLessonPlan (submit_resolve (Resolved data) t) = currentLessonPlan t"
    "lessonList (submit_resolve (Resolved data) t) = lessonList t"
  using assms
  by (simp_all add: submit_resolve_def submit_try_def submit_finally_def helper_defs Let_def)

lemma control_list:
  "lessonList (sendControlMessage a (Resolved data) s) =
     (if a = Next \<and> \<not> truthy_string (resp_error data) \<and> currentLessonPlan s \<noteq> [] then
        map (\<lambda>(index, item). item\<lparr>item_class := lesson_class index (currentLessonIndex s + 1)\<rparr>)
          (enumerate 0 (lessonList s))
      else lessonList s)"
  by (simp add: sendControlMessage_def control_begin_def control_resolve_def control_try_def
      control_finally_def updateLessonProgress_def helper_defs Let_def)

lemma load_sidebar [simp]:
  "currentLessonPlan (loadSession oc s) = currentLessonPlan s \<and>
   currentLessonIndex (loadSession oc s) = currentLessonIndex s \<and>
   lessonList (loadSession oc s) = lessonList s"
  by (cases oc) (simp_all add: loadSession_def Let_def foldl_append_views fetch_def scrollToBottom_def)

lemma submit_index [simp]:
  "currentLessonIndex (submitUserMessage text oc s) = currentLessonIndex s"
proof (cases "trim text = []")
  case True
  then show ?thesis
    by (simp add: submitUserMessage_def submit_handler_def submit_begin_blank)
next
  case False
  have "currentLessonIndex (submit_resolve oc t) = currentLessonIndex t" for t
    by (cases oc) (simp_all add: submit_resolve_def submit_try_def submit_catch_def
        submit_finally_def helper_defs Let_def)
  then show ?thesis
    by (simp add: submitUserMessage_sent [OF submit_begin_sent [OF False]])
qed

lemma load_index [simp]:
  "currentLessonIndex (loadSession oc s) = currentLessonIndex s"
  by (cases oc) (simp_all add: loadSession_def Let_def foldl_append_views fetch_def scrollToBottom_def)

lemma step_index:
  "currentLessonIndex (step s ev) =
     currentLessonIndex s + (if acknowledged Next ev then 1 else 0)"
proof (cases ev)
  case (Control a oc)
  then show ?thesis
    by (cases oc) (auto simp: control_resolved control_rejected)
qed simp_all

lemma step_keeps_sidebar:
  assumes "in_step_if_plan s"
  shows "in_step_if_plan (step s ev)"
proof (cases ev)
  case (Load oc)
  with assms show ?thesis by (simp add: in_step_if_plan_def sidebar_in_step_def)
next
  case (Submit msg oc)
  show ?thesis
  proof (cases "trim msg = []")
    case True
    with assms Submit show ?thesis
      by (simp add: submitUserMessage_def submit_handler_def submit_begin_blank
          in_step_if_plan_def sidebar_in_step_def)
  next
    case False
    note sent = submitUserMessage_sent [OF submit_begin_sent [OF False]]
    show ?thesis
    proof (cases oc)
      case (Rejected err)
      with assms Submit show ?thesis
        by (simp add: sent submit_resolve_rejected in_step_if_plan_def sidebar_in_step_def)
    next
      case (Resolved data)
      show ?thesis
      proof (cases "truthy_string (resp_error data)")
        case True
        with assms Submit Resolved show ?thesis
          using submit_index [of msg oc s]
          by (simp add: sent submit_resolve_error in_step_if_plan_def sidebar_in_step_def)
      next
        case noerr: False
        show ?thesis
        proof (cases "nonempty_array (resp_lesson_plan data)")
          case True
          then obtain plan where p: "resp_lesson_plan data = Some plan" "plan \<noteq> []"
            by (auto simp: nonempty_array_def split: option.splits)
          from Submit Resolved show ?thesis
            using submit_index [of msg oc s]
              render_classes [of "currentLessonIndex s" 0 plan]
              render_texts [of "currentLessonIndex s" 0 plan]
            by (simp add: sent submit_resolve_plan [OF noerr p] in_step_if_plan_def
                sidebar_in_step_def sidebar_classes_def)
        next
          case False
          with assms Submit Resolved show ?thesis
            using submit_index [of msg oc s]
            by (simp add: sent submit_resolve_no_plan in_step_if_plan_def sidebar_in_step_def)
        qed
      qed
    qed
  qed
next
  case (Control a oc)
  show ?thesis
  proof (cases oc)
    case (Rejected err)
    with assms Control show ?thesis
      by (simp add: control_rejected in_step_if_plan_def sidebar_in_step_def)
  next
    case (Resolved data)
    show ?thesis
    proof (cases "a = Next \<and> \<not> truthy_string (resp_error data) \<and> currentLessonPlan s \<noteq> []")
      case True
      with assms have st: "sidebar_in_step s" by (simp add: in_step_if_plan_def)
      then have len: "length (lessonList s) = length (currentLessonPlan s)"
        by (metis sidebar_in_step_def length_map)
      from True st Control Resolved len show ?thesis
        using reclass_classes [of "currentLessonIndex s + 1" 0 "lessonList s"]
          reclass_texts [of "currentLessonIndex s + 1" 0 "lessonList s"]
        by (simp add: control_resolved control_list in_step_if_plan_def sidebar_in_step_def
            sidebar_classes_def)
    next
      case False
      with assms Control Resolved show ?thesis
        by (auto simp: control_resolved control_list in_step_if_plan_def sidebar_in_step_def
            sidebar_classes_def)
    qed
  qed
qed

lemma run_keeps_sidebar:
  "in_step_if_plan s \<Longrightarrow> in_step_if_plan (run s evs)"
  unfolding run_def
  by (induction evs arbitrary: s) (simp_all add: step_keeps_sidebar)


lemma initial_in_step: "in_step_if_plan initial_state"
  by (simp add: in_step_if_plan_def initial_state_def)

subsection \<open>The lesson index\<close>

text \<open>
  C1, as amended. \<^verbatim>\<open>currentLessonIndex\<close> is never decremented and changes only by a
  \<^verbatim>\<open>next\<close> control action that the server acknowledged, which adds exactly one: after any
  sequence of operations the index is its starting value plus the number of acknowledged
  \<^verbatim>\<open>next\<close> actions in the sequence. The client does not compare the index with the
  length of the plan.
\<close>

theorem index_counts_acknowledged_next:
  "currentLessonIndex (run s evs) =
     currentLessonIndex s + length (filter (acknowledged Next) evs) \<and>
   currentLessonIndex s \<le> currentLessonIndex (step s ev) \<and>
   currentLessonIndex (step s ev) \<le> currentLessonIndex s + 1 \<and>
   (currentLessonIndex (step s ev) \<noteq> currentLessonIndex s \<longrightarrow> acknowledged Next ev)"
proof -
  have "currentLessonIndex (foldl step s evs) =
      currentLessonIndex s + length (filter (acknowledged Next) evs)"
    by (induction evs arbitrary: s) (simp_all add: step_index)
  then show ?thesis
    by (simp add: run_def step_index)
qed

theorem index_counts_acknowledged_next_witness:
  "currentLessonIndex (step initial_state (Control Next
      (Resolved \<lparr>resp_message = js ''two'', resp_lesson_plan = None,
         resp_is_finished = None, resp_error = None\<rparr>))) \<noteq> currentLessonIndex initial_state \<and>
   acknowledged Next (Control Next
      (Resolved \<lparr>resp_message = js ''two'', resp_lesson_plan = None,
         resp_is_finished = None, resp_error = None\<rparr>)) \<and>
   currentLessonIndex (run initial_state [Control Next
      (Resolved \<lparr>resp_message = js ''two'', resp_lesson_plan = None,
         resp_is_finished = None, resp_error = None\<rparr>)]) = 1"
  using index_counts_acknowledged_next [of initial_state
      "[Control Next (Resolved \<lparr>resp_message = js ''two'', resp_lesson_plan = None,
         resp_is_finished = None, resp_error = None\<rparr>)]"
      "Control Next (Resolved \<lparr>resp_message = js ''two'', resp_lesson_plan = None,
         resp_is_finished = None, resp_error = None\<rparr>)"]
  by (simp add: run_def control_resolved truthy_string_def initial_state_def)

theorem index_past_end_counterexample:
  "currentLessonPlan (run initial_state
     [Submit (js ''hi'') (Resolved \<lparr>resp_message = js ''one'', resp_lesson_plan = Some [js ''A''],
        resp_is_finished = None, resp_error = None\<rparr>),
      Control Next (Resolved \<lparr>resp_message = js ''two'', resp_lesson_plan = None,
        resp_is_finished = None, resp_error = None\<rparr>)]) \<noteq> [] \<and>
   \<not> currentLessonIndex (run initial_state
     [Submit (js ''hi'') (Resolved \<lparr>resp_message = js ''one'', resp_lesson_plan = Some [js ''A''],
        resp_is_finished = None, resp_error = None\<rparr>),
      Control Next (Resolved \<lparr>resp_message = js ''two'', resp_lesson_plan = None,
        resp_is_finished = None, resp_error = None\<rparr>)])
     < length (currentLessonPlan (run initial_state
     [Submit (js ''hi'') (Resolved \<lparr>resp_message = js ''one'', resp_lesson_plan = Some [js ''A''],
        resp_is_finished = None, resp_error = None\<rparr>),
      Control Next (Resolved \<lparr>resp_message = js ''two'', resp_lesson_plan = None,
        resp_is_finished = None, resp_error = None\<rparr>)]))"
proof -
  have t: "trim (js ''hi'') \<noteq> []" by code_simp
  let ?one = "\<lparr>resp_message = js ''one'', resp_lesson_plan = Some [js ''A''],
        resp_is_finished = None, resp_error = None\<rparr>"
  have e: "\<not> truthy_string (resp_error ?one)" by (simp add: truthy_string_def)
  have p: "currentLessonPlan (submitUserMessage (js ''hi'') (Resolved ?one) initial_state) = [js ''A'']"
    by (simp add: submitUserMessage_sent [OF submit_begin_sent [OF t]]
        submit_resolve_plan [OF e, of "[js ''A'']"])
  have z: "currentLessonIndex initial_state = 0" by (simp add: initial_state_def)
  show ?thesis
    by (simp add: run_def control_resolved p z truthy_string_def)
qed

subsection \<open>The sidebar\<close>

text \<open>
  C7, as amended. In every state reached from the initial one in which a plan exists,
  the sidebar has one entry per lesson of the plan, in the plan's order, with the
  escaped titles, and each entry's active or completed mark is determined by its
  position and \<^verbatim>\<open>currentLessonIndex\<close>. A non-empty \<^verbatim>\<open>lesson_plan\<close> in a body without
  error received by \<^verbatim>\<open>submitUserMessage\<close> replaces the stored plan and the list as a
  whole; a control action never changes the stored plan, whatever its response holds.
  With the three-item plan \<^verbatim>\<open>[a, b, c]\<close> and the index at 0, the three entries are
  rendered in that order, the first active and none completed; after one acknowledged
  \<^verbatim>\<open>advanceLesson\<close> the index is 1, the first entry is completed, the second active and
  the third neither.
\<close>

theorem sidebar_follows_plan_and_index:
  assumes "currentLessonPlan (run initial_state evs) \<noteq> []"
    and "trim text \<noteq> []"
    and "\<not> truthy_string (resp_error data)" and "resp_lesson_plan data = Some plan" and "plan \<noteq> []"
    and "\<not> truthy_string (resp_error abc)" and "resp_lesson_plan abc = Some [a, b, c]"
    and "currentLessonIndex s0 = 0"
    and "\<not> truthy_string (resp_error ack)"
  shows "sidebar_in_step (run initial_state evs) \<and>
    currentLessonPlan (submitUserMessage text (Resolved data) s) = plan \<and>
    lessonList (submitUserMessage text (Resolved data) s) =
      map (\<lambda>(index, lesson). lessonItem (currentLessonIndex s) index lesson) (enumerate 0 plan) \<and>
    map item_text (lessonList (submitUserMessage text (Resolved abc) s0)) =
      [escapeHtml a, escapeHtml b, escapeHtml c] \<and>
    map item_class (lessonList (submitUserMessage text (Resolved abc) s0)) =
      [''lesson-item active'', ''lesson-item'', ''lesson-item''] \<and>
    currentLessonIndex (advanceLesson (Resolved ack) (submitUserMessage text (Resolved abc) s0)) = 1 \<and>
    map item_text (lessonList (advanceLesson (Resolved ack) (submitUserMessage text (Resolved abc) s0))) =
      [escapeHtml a, escapeHtml b, escapeHtml c] \<and>
    map item_class (lessonList (advanceLesson (Resolved ack) (submitUserMessage text (Resolved abc) s0))) =
      [''lesson-item completed'', ''lesson-item active'', ''lesson-item''] \<and>
    currentLessonPlan (sendControlMessage act oc s) = currentLessonPlan s"
proof -
  have ctl: "currentLessonPlan (sendControlMessage act oc s) = currentLessonPlan s"
    by (cases oc) (simp_all add: control_resolved control_rejected)
  have inv: "sidebar_in_step (run initial_state evs)"
    using run_keeps_sidebar [OF initial_in_step, of evs] assms(1)
    by (simp add: in_step_if_plan_def)
  note sent = submitUserMessage_sent [OF submit_begin_sent [OF assms(2)]]
  have gen: "currentLessonPlan (submitUserMessage text (Resolved data) s) = plan \<and>
    lessonList (submitUserMessage text (Resolved data) s) =
      map (\<lambda>(index, lesson). lessonItem (currentLessonIndex s) index lesson) (enumerate 0 plan)"
    by (simp add: sent submit_resolve_plan [OF assms(3,4,5)])
  let ?s3 = "submitUserMessage text (Resolved abc) s0"
  have i3: "currentLessonIndex ?s3 = 0"
    using assms(8) by simp
  have p3: "currentLessonPlan ?s3 = [a, b, c]"
    by (simp add: sent submit_resolve_plan [OF assms(6,7)])
  have l3: "lessonList ?s3 = [lessonItem 0 0 a, lessonItem 0 1 b, lessonItem 0 2 c]"
    using assms(8)
    by (simp add: sent submit_resolve_plan [OF assms(6,7)] numeral_2_eq_2)
  have first: "map item_text (lessonList ?s3) = [escapeHtml a, escapeHtml b, escapeHtml c] \<and>
      map item_class (lessonList ?s3) = [''lesson-item active'', ''lesson-item'', ''lesson-item'']"
    by (simp add: l3 lessonItem_def lesson_class_def)
  have adv: "currentLessonIndex (advanceLesson (Resolved ack) ?s3) = 1 \<and>
    map item_text (lessonList (advanceLesson (Resolved ack) ?s3)) =
      [escapeHtml a, escapeHtml b, escapeHtml c] \<and>
    map item_class (lessonList (advanceLesson (Resolved ack) ?s3)) =
      [''lesson-item completed'', ''lesson-item active'', ''lesson-item'']"
    using assms(8,9)
    by (simp add: advanceLesson_def control_resolved control_list p3 l3
        lessonItem_def lesson_class_def)
  from inv gen first adv ctl show ?thesis by simp
qed


theorem sidebar_follows_plan_and_index_witness:
  "currentLessonPlan (run initial_state
     [Submit (js ''hi'') (Resolved \<lparr>resp_message = js ''ok'',
        resp_lesson_plan = Some [js ''A'', js ''B'', js ''C''],
        resp_is_finished = None, resp_error = None\<rparr>)]) \<noteq> [] \<and>
   sidebar_in_step (run initial_state
     [Submit (js ''hi'') (Resolved \<lparr>resp_message = js ''ok'',
        resp_lesson_plan = Some [js ''A'', js ''B'', js ''C''],
        resp_is_finished = None, resp_error = None\<rparr>)]) \<and>
   map item_class (lessonList (advanceLesson
       (Resolved \<lparr>resp_message = js ''next'', resp_lesson_plan = None,
          resp_is_finished = None, resp_error = None\<rparr>)
       (submitUserMessage (js ''hi'') (Resolved \<lparr>resp_message = js ''ok'',
          resp_lesson_plan = Some [js ''A'', js ''B'', js ''C''],
          resp_is_finished = None, resp_error = None\<rparr>) initial_state))) =
     [''lesson-item completed'', ''lesson-item active'', ''lesson-item'']"
proof -
  let ?abc = "\<lparr>resp_message = js ''ok'', resp_lesson_plan = Some [js ''A'', js ''B'', js ''C''],
        resp_is_finished = None, resp_error = None\<rparr>"
  let ?ack = "\<lparr>resp_message = js ''next'', resp_lesson_plan = None,
          resp_is_finished = None, resp_error = None\<rparr>"
  have t: "trim (js ''hi'') \<noteq> []" by code_simp
  have e: "\<not> truthy_string (resp_error ?abc)" "\<not> truthy_string (resp_error ?ack)"
    by (simp_all add: truthy_string_def)
  have p: "resp_lesson_plan ?abc = Some [js ''A'', js ''B'', js ''C'']" by simp
  have n: "[js ''A'', js ''B'', js ''C''] \<noteq> []" by simp
  have z: "currentLessonIndex initial_state = 0" by (simp add: initial_state_def)
  have r: "currentLessonPlan (run initial_state [Submit (js ''hi'') (Resolved ?abc)]) \<noteq> []"
    by (simp add: run_def submitUserMessage_sent [OF submit_begin_sent [OF t]]
        submit_resolve_plan [OF e(1) p n])
  from sidebar_follows_plan_and_index [OF r t e(1) p n e(1) p z e(2), of initial_state]
  show ?thesis using r by simp
qed

text \<open>
  The claim as first stated fails in two places. The number label of an entry is written
  when the list is rendered and not when the index advances, so two pages reached from
  the initial one with the same plan and the same index show different sidebars. And a
  \<^verbatim>\<open>lesson_plan\<close> in the response to a control action is not stored.
\<close>

theorem sidebar_rendering_counterexample:
  "currentLessonPlan (run initial_state
     [Submit (js ''hi'') (Resolved \<lparr>resp_message = js ''ok'',
        resp_lesson_plan = Some [js ''A'', js ''B'', js ''C''],
        resp_is_finished = None, resp_error = None\<rparr>),
      Control Next (Resolved \<lparr>resp_message = js ''next'', resp_lesson_plan = None,
        resp_is_finished = None, resp_error = None\<rparr>)]) =
   currentLessonPlan (run initial_state
     [Control Next (Resolved \<lparr>resp_message = js ''next'', resp_lesson_plan = None,
        resp_is_finished = None, resp_error = None\<rparr>),
      Submit (js ''hi'') (Resolved \<lparr>resp_message = js ''ok'',
        resp_lesson_plan = Some [js ''A'', js ''B'', js ''C''],
        resp_is_finished = None, resp_error = None\<rparr>)]) \<and>
   currentLessonIndex (run initial_state
     [Submit (js ''hi'') (Resolved \<lparr>resp_message = js ''ok'',
        resp_lesson_plan = Some [js ''A'', js ''B'', js ''C''],
        resp_is_finished = None, resp_error = None\<rparr>),
      Control Next (Resolved \<lparr>resp_message = js ''next'', resp_lesson_plan = None,
        resp_is_finished = None, resp_error = None\<rparr>)]) =
   currentLessonIndex (run initial_state
     [Control Next (Resolved \<lparr>resp_message = js ''next'', resp_lesson_plan = None,
        resp_is_finished = None, resp_error = None\<rparr>),
      Submit (js ''hi'') (Resolved \<lparr>resp_message = js ''ok'',
        resp_lesson_plan = Some [js ''A'', js ''B'', js ''C''],
        resp_is_finished = None, resp_error = None\<rparr>)]) \<and>
   map item_number (lessonList (run initial_state
     [Submit (js ''hi'') (Resolved \<lparr>resp_message = js ''ok'',
        resp_lesson_plan = Some [js ''A'', js ''B'', js ''C''],
        resp_is_finished = None, resp_error = None\<rparr>),
      Control Next (Resolved \<lparr>resp_message = js ''next'', resp_lesson_plan = None,
        resp_is_finished = None, resp_error = None\<rparr>)])) = [Some 1, Some 2, Some 3] \<and>
   map item_number (lessonList (run initial_state
     [Control Next (Resolved \<lparr>resp_message = js ''next'', resp_lesson_plan = None,
        resp_is_finished = None, resp_error = None\<rparr>),
      Submit (js ''hi'') (Resolved \<lparr>resp_message = js ''ok'',
        resp_lesson_plan = Some [js ''A'', js ''B'', js ''C''],
        resp_is_finished = None, resp_error = None\<rparr>)])) = [None, Some 2, Some 3] \<and>
   currentLessonPlan (sendControlMessage Replay
     (Resolved \<lparr>resp_message = js ''again'', resp_lesson_plan = Some [js ''X''],
        resp_is_finished = None, resp_error = None\<rparr>) initial_state) = []"
proof -
  let ?abc = "\<lparr>resp_message = js ''ok'', resp_lesson_plan = Some [js ''A'', js ''B'', js ''C''],
        resp_is_finished = None, resp_error = None\<rparr>"
  let ?ack = "\<lparr>resp_message = js ''next'', resp_lesson_plan = None,
        resp_is_finished = None, resp_error = None\<rparr>"
  have t: "trim (js ''hi'') \<noteq> []" by code_simp
  have e: "\<not> truthy_string (resp_error ?abc)" "\<not> truthy_string (resp_error ?ack)"
    by (simp_all add: truthy_string_def)
  have p: "resp_lesson_plan ?abc = Some [js ''A'', js ''B'', js ''C'']" by simp
  have n: "[js ''A'', js ''B'', js ''C''] \<noteq> []" by simp
  note sent = submitUserMessage_sent [OF submit_begin_sent [OF t]]
  have z: "currentLessonIndex initial_state = 0" "currentLessonPlan initial_state = []"
    "lessonList initial_state = []"
    by (simp_all add: initial_state_def)
  let ?first = "submitUserMessage (js ''hi'') (Resolved ?abc) initial_state"
  have f: "currentLessonPlan ?first = [js ''A'', js ''B'', js ''C'']"
    "lessonList ?first =
       [lessonItem 0 0 (js ''A''), lessonItem 0 1 (js ''B''), lessonItem 0 2 (js ''C'')]"
    using z(1) by (simp_all add: sent submit_resolve_plan [OF e(1) p n] numeral_2_eq_2)
  let ?ahead = "sendControlMessage Next (Resolved ?ack) initial_state"
  have a: "currentLessonIndex ?ahead = 1" "currentLessonPlan ?ahead = []"
    using z by (simp_all add: control_resolved truthy_string_def)
  have l: "lessonList (submitUserMessage (js ''hi'') (Resolved ?abc) ?ahead) =
       [lessonItem 1 0 (js ''A''), lessonItem 1 1 (js ''B''), lessonItem 1 2 (js ''C'')]"
    using a(1) by (simp add: sent submit_resolve_plan [OF e(1) p n] numeral_2_eq_2)
  have q: "currentLessonPlan (submitUserMessage (js ''hi'') (Resolved ?abc) ?ahead) =
       [js ''A'', js ''B'', js ''C'']"
    by (simp add: sent submit_resolve_plan [OF e(1) p n])
  show ?thesis
    using z a(1)
    by (simp add: run_def control_resolved control_list f l q lessonItem_def truthy_string_def)
qed

subsection \<open>Completion and the first exchange\<close>

lemma load_awaiting: "awaiting_first s \<Longrightarrow> awaiting_first (loadSession oc s)"
  by (cases oc) (auto simp: awaiting_first_def loadSession_def Let_def foldl_append_views
      fetch_def scrollToBottom_def)

lemma submit_display_kept:
  assumes "\<not> successful_exchange (Submit msg oc)"
  shows "isFirstMessage (submitUserMessage msg oc s) = isFirstMessage s \<and>
    lessonControls_display (submitUserMessage msg oc s) = lessonControls_display s"
proof (cases "trim msg = []")
  case True
  then show ?thesis
    by (simp add: submitUserMessage_def submit_handler_def submit_begin_blank)
next
  case False
  note sent = submitUserMessage_sent [OF submit_begin_sent [OF False]]
  show ?thesis
  proof (cases oc)
    case (Rejected err)
    then show ?thesis
      by (simp add: sent submit_resolve_def submit_catch_def submit_finally_def helper_defs Let_def)
  next
    case (Resolved data)
    with False assms show ?thesis
      by (simp add: sent submit_resolve_def submit_try_def submit_finally_def helper_defs Let_def)
  qed
qed

lemma control_display_kept:
  assumes "\<not> successful_exchange (Control a oc)"
  shows "isFirstMessage (sendControlMessage a oc s) = isFirstMessage s \<and>
    lessonControls_display (sendControlMessage a oc s) = lessonControls_display s"
  using assms
  by (cases oc) (simp_all add: sendControlMessage_def control_begin_def control_resolve_def
      control_try_def control_catch_def control_finally_def helper_defs Let_def)

lemma step_awaiting:
  "awaiting_first s \<Longrightarrow> \<not> successful_exchange ev \<Longrightarrow> awaiting_first (step s ev)"
proof (cases ev)
  case (Load oc)
  assume "awaiting_first s"
  with Load show ?thesis by (simp add: load_awaiting)
next
  case (Submit msg oc)
  assume "awaiting_first s" "\<not> successful_exchange ev"
  with Submit submit_display_kept [of msg oc s] show ?thesis
    by (simp add: awaiting_first_def)
next
  case (Control a oc)
  assume "awaiting_first s" "\<not> successful_exchange ev"
  with Control control_display_kept [of a oc s] show ?thesis
    by (simp add: awaiting_first_def)
qed

lemma run_awaiting:
  "awaiting_first s \<Longrightarrow> \<not> list_ex successful_exchange evs \<Longrightarrow> awaiting_first (run s evs)"
  unfolding run_def
  by (induction evs arbitrary: s) (simp_all add: step_awaiting)

lemma first_exchange_reveals:
  assumes "awaiting_first s" and "trim msg \<noteq> []"
    and "\<not> truthy_string (resp_error data)" and "\<not> truthy_bool (resp_is_finished data)"
  shows "lessonControls_display (submitUserMessage msg (Resolved data) s) = ''flex'' \<and>
    \<not> isFirstMessage (submitUserMessage msg (Resolved data) s)"
  using assms(1)
  by (auto simp: submitUserMessage_sent [OF submit_begin_sent [OF assms(2)]]
      submit_resolve_unfinished [OF assms(3,4)] awaiting_first_def)

text \<open>
  C8. A body without a truthy error that carries \<^verbatim>\<open>is_finished: true\<close>, received by
  \<^verbatim>\<open>submitUserMessage\<close> or by a control action, hides the lesson controls and adds exactly
  one completion notice. A body without a truthy error and without \<^verbatim>\<open>is_finished: true\<close>
  received by \<^verbatim>\<open>submitUserMessage\<close> while \<^verbatim>\<open>isFirstMessage\<close> holds reveals the lesson
  controls and clears the flag, and adds no notice. After any sequence of operations
  from the initial page that holds no successful exchange, such a body received by
  \<^verbatim>\<open>submitUserMessage\<close> leaves the lesson controls revealed and the flag cleared.
\<close>

theorem completion_and_first_exchange:
  assumes "trim text \<noteq> []"
    and "\<not> truthy_string (resp_error fin)" and "resp_is_finished fin = Some True"
    and "\<not> truthy_string (resp_error data)" and "resp_is_finished data \<noteq> Some True"
    and "isFirstMessage s'"
  shows "lessonControls_display (submitUserMessage text (Resolved fin) s) = ''none'' \<and>
         toasts (submitUserMessage text (Resolved fin) s) = toasts s @ [completed_notice] \<and>
         lessonControls_display (sendControlMessage a (Resolved fin) s) = ''none'' \<and>
         toasts (sendControlMessage a (Resolved fin) s) = toasts s @ [completed_notice] \<and>
         lessonControls_display (submitUserMessage text (Resolved data) s') = ''flex'' \<and>
         \<not> isFirstMessage (submitUserMessage text (Resolved data) s') \<and>
         toasts (submitUserMessage text (Resolved data) s') = toasts s' \<and>
         (\<not> list_ex successful_exchange evs \<longrightarrow>
            lessonControls_display
              (submitUserMessage text (Resolved data) (run initial_state evs)) = ''flex'' \<and>
            \<not> isFirstMessage (submitUserMessage text (Resolved data) (run initial_state evs)))"
proof -
  from assms(3) have f: "truthy_bool (resp_is_finished fin)"
    by (simp add: truthy_bool_def)
  from assms(5) have u: "\<not> truthy_bool (resp_is_finished data)"
    by (cases "resp_is_finished data") (simp_all add: truthy_bool_def)
  note sent = submitUserMessage_sent [OF submit_begin_sent [OF assms(1)]]
  have i: "awaiting_first initial_state"
    by (simp add: awaiting_first_def initial_state_def)
  have first: "lessonControls_display
        (submitUserMessage text (Resolved data) (run initial_state evs)) = ''flex'' \<and>
      \<not> isFirstMessage (submitUserMessage text (Resolved data) (run initial_state evs))"
    if "\<not> list_ex successful_exchange evs"
    by (rule first_exchange_reveals [OF run_awaiting [OF i that] assms(1) assms(4) u])
  have rest: "lessonControls_display (submitUserMessage text (Resolved fin) s) = ''none'' \<and>
         toasts (submitUserMessage text (Resolved fin) s) = toasts s @ [completed_notice] \<and>
         lessonControls_display (sendControlMessage a (Resolved fin) s) = ''none'' \<and>
         toasts (sendControlMessage a (Resolved fin) s) = toasts s @ [completed_notice] \<and>
         lessonControls_display (submitUserMessage text (Resolved data) s') = ''flex'' \<and>
         \<not> isFirstMessage (submitUserMessage text (Resolved data) s') \<and>
         toasts (submitUserMessage text (Resolved data) s') = toasts s'"
    using assms(6)
    by (simp add: sent submit_resolve_finished [OF assms(2) f]
        submit_resolve_unfinished [OF assms(4) u] control_finished [OF assms(2) f])
  from rest first show ?thesis by blast
qed

theorem completion_and_first_exchange_witness:
  "trim (js ''hi'') \<noteq> [] \<and> isFirstMessage initial_state \<and>
   toasts (sendControlMessage Next
      (Resolved \<lparr>resp_message = js ''done'', resp_lesson_plan = None,
         resp_is_finished = Some True, resp_error = None\<rparr>) initial_state) = [completed_notice] \<and>
   lessonControls_display (submitUserMessage (js ''hi'')
      (Resolved \<lparr>resp_message = js ''ok'', resp_lesson_plan = None,
         resp_is_finished = Some False, resp_error = None\<rparr>) initial_state) = ''flex''"
proof -
  have t: "trim (js ''hi'') \<noteq> []" by code_simp
  have i: "isFirstMessage initial_state" by (simp add: initial_state_def)
  from completion_and_first_exchange [OF t _ _ _ _ i, of
      "\<lparr>resp_message = js ''done'', resp_lesson_plan = None,
         resp_is_finished = Some True, resp_error = None\<rparr>"
      "\<lparr>resp_message = js ''ok'', resp_lesson_plan = None,
         resp_is_finished = Some False, resp_error = None\<rparr>" initial_state Next "[]"]
  show ?thesis using t i by (simp add: truthy_string_def initial_state_def)
qed

subsection \<open>Restoring a session\<close>

text \<open>
  C9. \<^verbatim>\<open>loadSession\<close> on a history of \<open>N > 0\<close> messages removes the welcome placeholder
  and appends the \<open>N\<close> views of the messages in the order received, a user view for the
  sender \<^verbatim>\<open>user\<close> and an AI view for any other; it clears \<^verbatim>\<open>isFirstMessage\<close> and reveals
  the lesson controls. On an absent or empty history, or when the request fails, the
  transcript and \<^verbatim>\<open>isFirstMessage\<close> are what they were, so from the initial page the
  placeholder stays and the flag is still true.
\<close>

theorem loadSession_replays_history:
  assumes "resp_history data = Some h" and "h \<noteq> []"
    and "resp_history none = None \<or> resp_history none = Some []"
  shows "chatMessages (loadSession (Resolved data) s) =
           remove1 WelcomeMessage (chatMessages s) @ map historyView h \<and>
         chatMessages (loadSession (Resolved data) initial_state) = map historyView h \<and>
         length (chatMessages (loadSession (Resolved data) initial_state)) = length h \<and>
         WelcomeMessage \<notin> set (chatMessages (loadSession (Resolved data) initial_state)) \<and>
         \<not> isFirstMessage (loadSession (Resolved data) s) \<and>
         lessonControls_display (loadSession (Resolved data) s) = ''flex'' \<and>
         chatMessages (loadSession (Resolved none) s) = chatMessages s \<and>
         isFirstMessage (loadSession (Resolved none) s) = isFirstMessage s \<and>
         isFirstMessage (loadSession (Resolved none) initial_state) \<and>
         chatMessages (loadSession (Rejected err) s) = chatMessages s \<and>
         isFirstMessage (loadSession (Rejected err) s) = isFirstMessage s \<and>
         isFirstMessage (loadSession (Rejected err) initial_state)"
proof -
  from assms(1,2) have ne: "nonempty_array (resp_history data)"
    by (simp add: nonempty_array_def)
  from assms(3) have em: "\<not> nonempty_array (resp_history none)"
    by (auto simp: nonempty_array_def)
  have full: "loadSession (Resolved data) t =
      t\<lparr>requests := requests t @ [GetSession],
        chatMessages := remove1 WelcomeMessage (chatMessages t) @ map historyView h,
        isFirstMessage := False, lessonControls_display := ''flex'',
        scroll_timers := Suc (scroll_timers t)\<rparr>" for t
    using ne assms(1)
    by (simp add: loadSession_def Let_def foldl_append_views remove_welcome_remove1
        fetch_def scrollToBottom_def)
  have empty: "loadSession (Resolved none) t = t\<lparr>requests := requests t @ [GetSession]\<rparr>" for t
    using em by (simp add: loadSession_def Let_def fetch_def)
  have failed: "loadSession (Rejected err) t =
      t\<lparr>requests := requests t @ [GetSession],
        console_errors := console_errors t @ [(''Failed to load session:'', err)]\<rparr>" for t
    by (simp add: loadSession_def Let_def fetch_def)
  have view: "WelcomeMessage \<notin> set (map historyView h)"
    by (auto simp: historyView_def)
  show ?thesis
    using view by (simp add: full empty failed initial_state_def)
qed

theorem loadSession_replays_history_witness:
  "chatMessages (loadSession (Resolved \<lparr>resp_history = Some
       [\<lparr>hist_sender = js ''user'', hist_message = js ''hi'', hist_timestamp = js ''t1''\<rparr>,
        \<lparr>hist_sender = js ''ai'', hist_message = js ''**yo**'', hist_timestamp = js ''t2''\<rparr>]\<rparr>)
     initial_state) =
   [MessageDiv ''message user'' UserAvatar (js ''hi'') (Some (HistoryTime (js ''t1''))),
    MessageDiv ''message ai'' RobotAvatar (js ''<strong>yo</strong>'') (Some (HistoryTime (js ''t2'')))] \<and>
   chatMessages (loadSession (Resolved \<lparr>resp_history = Some []\<rparr>) initial_state) = [WelcomeMessage]"
proof -
  have u: "escapeHtml (js ''hi'') = js ''hi''" by code_simp
  have a: "formatMessage (js ''**yo**'') = js ''<strong>yo</strong>''" by code_simp
  have n: "js ''ai'' \<noteq> js ''user''" by code_simp
  from loadSession_replays_history [of
      "\<lparr>resp_history = Some
       [\<lparr>hist_sender = js ''user'', hist_message = js ''hi'', hist_timestamp = js ''t1''\<rparr>,
        \<lparr>hist_sender = js ''ai'', hist_message = js ''**yo**'', hist_timestamp = js ''t2''\<rparr>]\<rparr>"
      "[\<lparr>hist_sender = js ''user'', hist_message = js ''hi'', hist_timestamp = js ''t1''\<rparr>,
        \<lparr>hist_sender = js ''ai'', hist_message = js ''**yo**'', hist_timestamp = js ''t2''\<rparr>]"
      "\<lparr>resp_history = Some []\<rparr>" initial_state]
  show ?thesis using u a n by (simp add: historyView_def initial_state_def)
qed

subsection \<open>The welcome placeholder\<close>

text \<open>
  C10. \<^verbatim>\<open>addAIMessage\<close> and \<^verbatim>\<open>addSystemMessage\<close> append their one entry and change
  nothing else in the transcript; \<^verbatim>\<open>addUserMessage\<close> takes out the first welcome
  placeholder, if there is one, and appends its one entry. A control action appends one
  entry. So a placeholder that is in the transcript is still there after an AI Message,
  a system Message or a control action, and one placeholder fewer is there after a user
  Message.
\<close>

theorem welcome_placeholder_frame:
  "chatMessages (addAIMessage text s) = chatMessages s @ [aiMessage text] \<and>
   chatMessages (addSystemMessage text s) = chatMessages s @ [systemMessage text] \<and>
   chatMessages (addUserMessage text s) =
     remove1 WelcomeMessage (chatMessages s) @ [userMessage text] \<and>
   (\<exists>m. chatMessages (sendControlMessage a oc s) = chatMessages s @ [m]) \<and>
   (WelcomeMessage \<in> set (chatMessages s) \<longrightarrow>
      WelcomeMessage \<in> set (chatMessages (addAIMessage text s)) \<and>
      WelcomeMessage \<in> set (chatMessages (addSystemMessage text s)) \<and>
      WelcomeMessage \<in> set (chatMessages (sendControlMessage a oc s)) \<and>
      length (filter (\<lambda>n. n = WelcomeMessage) (chatMessages (addUserMessage text s))) <
        length (filter (\<lambda>n. n = WelcomeMessage) (chatMessages s)))"
proof -
  have ctl: "\<exists>m. chatMessages (sendControlMessage a oc s) = chatMessages s @ [m]"
    by (cases oc) (simp_all add: control_resolved control_rejected)
  have less: "length (filter (\<lambda>n. n = WelcomeMessage) (remove1 WelcomeMessage ms)) <
      length (filter (\<lambda>n. n = WelcomeMessage) ms)" if "WelcomeMessage \<in> set ms" for ms
    using that by (induction ms) auto
  show ?thesis
    using ctl less [of "chatMessages s"]
    by (auto simp: helper_defs remove_welcome_remove1)
qed

theorem welcome_placeholder_frame_witness:
  "WelcomeMessage \<in> set (chatMessages initial_state) \<and>
   WelcomeMessage \<in> set (chatMessages (addAIMessage (js ''yo'') initial_state)) \<and>
   chatMessages (addAIMessage (js ''yo'') initial_state) = [WelcomeMessage, aiMessage (js ''yo'')] \<and>
   chatMessages (addUserMessage (js ''hi'') initial_state) = [userMessage (js ''hi'')]"
proof -
  have i: "WelcomeMessage \<in> set (chatMessages initial_state)" by (simp add: initial_state_def)
  from welcome_placeholder_frame [of "js ''yo''" initial_state Next "Rejected []"]
    welcome_placeholder_frame [of "js ''hi''" initial_state Next "Rejected []"]
  show ?thesis using i by (simp add: initial_state_def)
qed

subsection \<open>Facts about the formatter\<close>

lemma first_close_sound:
  "first_close ok d s = Some (g, rest) \<Longrightarrow>
     s = g @ d @ rest \<and> g \<noteq> [] \<and> (\<forall>c \<in> set g. ok c)"
proof (induction s arbitrary: g)
  case Nil
  then show ?case by simp
next
  case (Cons c s)
  from Cons.prems have nl: "ok c"
    by (auto split: if_splits)
  show ?case
  proof (cases "prefix d s")
    case True
    with Cons.prems nl have "g = [c]" "rest = drop (length d) s" by auto
    with True nl show ?thesis by (auto simp: prefix_def)
  next
    case False
    with Cons.prems nl obtain g' where g': "first_close ok d s = Some (g', rest)" "g = c # g'"
      by (auto split: option.splits)
    from Cons.IH [OF g'(1)] g'(2) nl show ?thesis by simp
  qed
qed

lemma first_close_shortest:
  "first_close ok d s = Some (g, rest) \<Longrightarrow> s = g' @ d @ rest' \<Longrightarrow> g' \<noteq> [] \<Longrightarrow>
     length g \<le> length g'"
proof (induction s arbitrary: g g')
  case Nil
  then show ?case by simp
next
  case (Cons c s)
  from Cons.prems(1) have nl: "ok c"
    by (auto split: if_splits)
  from Cons.prems(2,3) obtain h where h: "g' = c # h" "s = h @ d @ rest'"
    by (cases g') auto
  show ?case
  proof (cases "prefix d s")
    case True
    with Cons.prems(1) nl have "g = [c]" by auto
    with h show ?thesis by simp
  next
    case False
    with h have "h \<noteq> []" by (auto simp: prefix_def)
    from False Cons.prems(1) nl obtain g0 where g0: "first_close ok d s = Some (g0, rest)" "g = c # g0"
      by (auto split: option.splits)
    from Cons.IH [OF g0(1) h(2) \<open>h \<noteq> []\<close>] g0(2) h(1) show ?thesis by simp
  qed
qed

lemma first_close_complete:
  "(\<forall>c \<in> set g. ok c) \<Longrightarrow> g \<noteq> [] \<Longrightarrow>
     \<exists>g0 rest0. first_close ok d (g @ d @ rest) = Some (g0, rest0)"
proof (induction g)
  case Nil
  then show ?case by simp
next
  case (Cons c g)
  show ?case
  proof (cases "g = []")
    case True
    with Cons.prems show ?thesis by (simp add: prefix_def)
  next
    case False
    with Cons.prems Cons.IH obtain g0 rest0 where "first_close ok d (g @ d @ rest) = Some (g0, rest0)"
      by auto
    with Cons.prems show ?thesis by simp
  qed
qed

lemma pair_here_sound:
  assumes "pair_here ok d s = Some (g, rest)"
  shows "s = d @ g @ d @ rest" and "g \<noteq> []" and "\<forall>c \<in> set g. ok c"
  using assms first_close_sound [of ok d "drop (length d) s" g rest]
  by (auto simp: pair_here_def prefix_def split: if_splits)

lemma pair_here_shortest_delimited:
  "pair_here ok d s = Some (g, rest) \<longleftrightarrow> shortest_delimited ok d s g rest"
proof
  assume m: "pair_here ok d s = Some (g, rest)"
  then have l: "first_close ok d (drop (length d) s) = Some (g, rest)"
    by (simp add: pair_here_def split: if_splits)
  have "length g \<le> length g'" if "s = d @ g' @ d @ rest'" "g' \<noteq> []" for g' rest'
    using first_close_shortest [OF l, of g' rest'] that by simp
  with pair_here_sound [OF m] show "shortest_delimited ok d s g rest"
    by (simp add: shortest_delimited_def)
next
  assume sd: "shortest_delimited ok d s g rest"
  then have s: "s = d @ g @ d @ rest" and ne: "g \<noteq> []"
    and nl: "\<forall>c \<in> set g. ok c"
    and least: "\<And>g' rest'. s = d @ g' @ d @ rest' \<Longrightarrow> g' \<noteq> [] \<Longrightarrow> length g \<le> length g'"
    by (auto simp: shortest_delimited_def)
  from first_close_complete [OF nl ne, of d rest] obtain g0 rest0
    where l0: "first_close ok d (g @ d @ rest) = Some (g0, rest0)" by blast
  then have m0: "pair_here ok d s = Some (g0, rest0)"
    by (simp add: pair_here_def s)
  from first_close_sound [OF l0] have eq: "g @ d @ rest = g0 @ d @ rest0" and ne0: "g0 \<noteq> []"
    by simp_all
  from eq s have "s = d @ g0 @ d @ rest0" by simp
  from least [OF this ne0] have le: "length g \<le> length g0" .
  from first_close_shortest [OF l0 refl ne] have "length g0 \<le> length g" .
  with le have "length g = length g0" by simp
  with eq have "g = g0" "rest = rest0" by auto
  with m0 show "pair_here ok d s = Some (g, rest)" by simp
qed

text \<open>The functions of the source compute the pass that keeps a run within one line.\<close>

lemma lazy_dot_until_first_close: "lazy_dot_until d s = first_close same_line d s"
  by (induction s) (simp_all add: same_line_def isLineTerminator_def)

lemma match_here_pair_here: "match_here d s = pair_here same_line d s"
  by (simp add: match_here_def pair_here_def lazy_dot_until_first_close)

lemma replace_delimited_replace_pairs:
  "replace_delimited d opn cls s = replace_pairs same_line d opn cls s"
proof (induction d opn cls s rule: replace_delimited.induct)
  case (1 d opn cls)
  show ?case by simp
next
  case (2 d opn cls c s)
  show ?case
  proof (cases "match_here d (c # s)")
    case None
    with 2(1) [OF None] show ?thesis
      by (simp add: match_here_pair_here [symmetric])
  next
    case (Some p)
    obtain g rest where p: "p = (g, rest)" by (cases p)
    from 2(2) [OF Some p [symmetric]] Some p show ?thesis
      by (simp add: match_here_pair_here [symmetric])
  qed
qed

lemma match_here_sound:
  assumes "match_here d s = Some (g, rest)"
  shows "s = d @ g @ d @ rest"
  using assms pair_here_sound(1) [of same_line d s g rest]
  by (simp add: match_here_pair_here)

lemma format_tags_plain:
  "t \<in> set format_tags \<Longrightarrow> \<forall>c \<in> set t. c \<noteq> 0x2A \<and> c \<noteq> 0x0A"
  by (auto simp: format_tags_def js_def)

lemma inert_html_text:
  "\<forall>c \<in> set s. c \<noteq> 0x3C \<and> c \<noteq> 0x3E \<Longrightarrow> inert_html s' \<Longrightarrow> inert_html (s @ s')"
  by (induction s) (auto intro: inert_html.intros)

lemma escape_cu_text: "\<forall>x \<in> set (escape_cu c). x \<noteq> 0x3C \<and> x \<noteq> 0x3E"
  by (simp add: escape_cu_def js_def)

lemma escapeHtml_text: "\<forall>x \<in> set (escapeHtml text). x \<noteq> 0x3C \<and> x \<noteq> 0x3E"
  using escape_cu_text by (auto simp: escapeHtml_def)

lemma inert_escapeHtml: "inert_html (escapeHtml text)"
  using inert_html_text [OF escapeHtml_text inert_html.Empty] by simp

lemma marks_replaced_refl: "marks_replaced s s"
  by (induction s) (auto intro: marks_replaced.intros)

lemma marks_replaced_append:
  "marks_replaced a a' \<Longrightarrow> marks_replaced b b' \<Longrightarrow> marks_replaced (a @ b) (a' @ b')"
  by (induction rule: marks_replaced.induct) (auto intro: marks_replaced.intros)

lemma marks_replaced_drop_all:
  "\<forall>c \<in> set d. c = 0x2A \<Longrightarrow> marks_replaced d []"
  by (induction d) (auto intro: marks_replaced.intros)

lemma marks_replaced_delimiter:
  assumes "d \<noteq> []" and "\<forall>c \<in> set d. c = 0x2A" and "t \<in> set format_tags"
  shows "marks_replaced d t"
proof -
  from assms(1) obtain c d' where d: "d = c # d'" by (cases d) auto
  with assms(2) have "c = 0x2A" and "marks_replaced d' []"
    by (simp_all add: marks_replaced_drop_all)
  with assms(3) have "marks_replaced (c # d') (t @ [])"
    by (intro marks_replaced.Put) simp_all
  with d show ?thesis by simp
qed

lemma marks_replaced_plain_prefix:
  "\<forall>c \<in> set t. c \<noteq> 0x2A \<and> c \<noteq> 0x0A \<Longrightarrow> marks_replaced (t @ s) out \<Longrightarrow>
     \<exists>out'. out = t @ out' \<and> marks_replaced s out'"
proof (induction t arbitrary: out)
  case Nil
  then show ?case by simp
next
  case (Cons c t)
  from Cons.prems(2) have "marks_replaced (c # (t @ s)) out" by simp
  then obtain out1 where "out = c # out1" "marks_replaced (t @ s) out1"
    using Cons.prems(1) by (cases rule: marks_replaced.cases) auto
  with Cons.IH [of out1] Cons.prems(1) show ?case by auto
qed

inductive_cases marks_replaced_NilE: "marks_replaced [] out"

inductive_cases marks_replaced_ConsE: "marks_replaced (c # s) out"

lemma inert_html_marks_replaced:
  "inert_html s \<Longrightarrow> marks_replaced s out \<Longrightarrow> inert_html out"
proof (induction s arbitrary: out rule: inert_html.induct)
  case Empty
  then show ?case by (auto elim: marks_replaced_NilE intro: inert_html.Empty)
next
  case (Text c s)
  from Text.prems show ?case
    by (rule marks_replaced_ConsE)
      (auto intro: inert_html.Text inert_html.Tag Text.IH simp: Text.hyps)
next
  case (Tag t s)
  from marks_replaced_plain_prefix [OF format_tags_plain [OF Tag.hyps(1)] Tag.prems]
  obtain out' where "out = t @ out'" "marks_replaced s out'" by blast
  with Tag show ?case by (auto intro: inert_html.Tag)
qed

lemma replace_delimited_marks:
  "d \<noteq> [] \<Longrightarrow> \<forall>c \<in> set d. c = 0x2A \<Longrightarrow> opn \<in> set format_tags \<Longrightarrow>
     cls \<in> set format_tags \<Longrightarrow> marks_replaced s (replace_delimited d opn cls s)"
proof (induction d opn cls s rule: replace_delimited.induct)
  case (1 d opn cls)
  show ?case by (simp add: marks_replaced.Done)
next
  case (2 d opn cls c s)
  show ?case
  proof (cases "match_here d (c # s)")
    case None
    with 2 show ?thesis by (auto intro: marks_replaced.Keep)
  next
    case (Some p)
    obtain g rest where p: "p = (g, rest)" by (cases p)
    from match_here_sound(1) [of d "c # s" g rest] Some p
    have eq: "c # s = d @ g @ d @ rest" by simp
    from 2 Some p have ih: "marks_replaced rest (replace_delimited d opn cls rest)"
      by auto
    have o: "marks_replaced d opn" and c: "marks_replaced d cls"
      using 2(3,4,5,6) by (simp_all add: marks_replaced_delimiter)
    have r: "replace_delimited d opn cls (c # s) = opn @ g @ cls @ replace_delimited d opn cls rest"
      using Some p by simp
    have "marks_replaced (d @ g @ d @ rest) (opn @ g @ cls @ replace_delimited d opn cls rest)"
      by (rule marks_replaced_append [OF o marks_replaced_append [OF marks_replaced_refl
            marks_replaced_append [OF c ih]]])
    then have "marks_replaced (c # s) (opn @ g @ cls @ replace_delimited d opn cls rest)"
      by (simp only: eq)
    then show ?thesis by (simp only: r)
  qed
qed

lemma replace_newlines_marks: "marks_replaced s (replace_newlines s)"
proof (induction s)
  case Nil
  show ?case by (simp add: replace_newlines_def marks_replaced.Done)
next
  case (Cons c s)
  show ?case
  proof (cases "c = 0x0A")
    case True
    have "js ''<br>'' \<in> set format_tags" by (simp add: format_tags_def)
    from marks_replaced.Put [OF _ this Cons.IH, of c] True show ?thesis
      by (simp add: replace_newlines_def)
  next
    case False
    with marks_replaced.Keep [OF Cons.IH, of c] show ?thesis
      by (simp add: replace_newlines_def)
  qed
qed

lemma inert_formatMessage: "inert_html (formatMessage text)"
proof -
  have star: "\<forall>c \<in> set (js ''**''). c = 0x2A" "\<forall>c \<in> set (js ''*''). c = 0x2A"
    "js ''**'' \<noteq> []" "js ''*'' \<noteq> []"
    by (simp_all add: js_def)
  have tags: "js ''<strong>'' \<in> set format_tags" "js ''</strong>'' \<in> set format_tags"
    "js ''<em>'' \<in> set format_tags" "js ''</em>'' \<in> set format_tags"
    by (simp_all add: format_tags_def)
  let ?a = "escapeHtml text"
  let ?b = "replace_delimited (js ''**'') (js ''<strong>'') (js ''</strong>'') ?a"
  let ?c = "replace_delimited (js ''*'') (js ''<em>'') (js ''</em>'') ?b"
  have "inert_html ?b"
    by (rule inert_html_marks_replaced [OF inert_escapeHtml
          replace_delimited_marks [OF star(3) star(1) tags(1) tags(2)]])
  then have "inert_html ?c"
    by (rule inert_html_marks_replaced [OF _
          replace_delimited_marks [OF star(4) star(2) tags(3) tags(4)]])
  then have "inert_html (replace_newlines ?c)"
    by (rule inert_html_marks_replaced [OF _ replace_newlines_marks])
  then show ?thesis by (simp add: formatMessage_def Let_def)
qed

lemma replace_pairs_emphasised:
  "emphasised ok d opn cls s (replace_pairs ok d opn cls s)"
proof (induction ok d opn cls s rule: replace_pairs.induct)
  case (1 ok d opn cls)
  show ?case by (simp add: emphasised.End)
next
  case (2 ok d opn cls c s)
  show ?case
  proof (cases "pair_here ok d (c # s)")
    case None
    then have "\<not> (\<exists>g rest. shortest_delimited ok d (c # s) g rest)"
      by (simp flip: pair_here_shortest_delimited)
    from emphasised.Copy [OF this 2(1) [OF None]] None show ?thesis by simp
  next
    case (Some p)
    obtain g rest where p: "p = (g, rest)" by (cases p)
    with Some have "shortest_delimited ok d (c # s) g rest"
      by (simp flip: pair_here_shortest_delimited)
    from emphasised.Pair [OF this 2(2) [OF Some p [symmetric]]] Some p show ?thesis by simp
  qed
qed

lemma emphasised_unique:
  "emphasised ok d opn cls s out \<Longrightarrow> out = replace_pairs ok d opn cls s"
proof (induction rule: emphasised.induct)
  case End
  show ?case by simp
next
  case (Pair s g rest out)
  from Pair.hyps(1) have m: "pair_here ok d s = Some (g, rest)"
    by (simp add: pair_here_shortest_delimited)
  from pair_here_shorter [OF m] obtain c s' where "s = c # s'" by (cases s) auto
  with m Pair.IH show ?case by simp
next
  case (Copy c s out)
  have "pair_here ok d (c # s) = None"
  proof (cases "pair_here ok d (c # s)")
    case (Some p)
    obtain g rest where "p = (g, rest)" by (cases p)
    with Some Copy.hyps(1) show ?thesis
      by (auto simp: pair_here_shortest_delimited)
  qed simp
  with Copy.IH show ?case by simp
qed

lemma html_escaped_escapeHtml: "html_escaped t (escapeHtml t)"
proof (induction t)
  case Nil
  show ?case by (simp add: escapeHtml_def html_escaped.Nothing)
next
  case (Cons c t)
  have step: "escapeHtml (x # t) = escape_cu x @ escapeHtml t" for x
    by (simp add: escapeHtml_def)
  consider "c = 0x26" | "c = 0xA0" | "c = 0x3C" | "c = 0x3E"
    | "c \<noteq> 0x26" "c \<noteq> 0xA0" "c \<noteq> 0x3C" "c \<noteq> 0x3E"
    by blast
  then show ?case
  proof cases
    case 1
    with html_escaped.Amp [OF Cons.IH] show ?thesis by (simp add: step escape_cu_def)
  next
    case 2
    with html_escaped.Nbsp [OF Cons.IH] show ?thesis by (simp add: step escape_cu_def)
  next
    case 3
    with html_escaped.Lt [OF Cons.IH] show ?thesis by (simp add: step escape_cu_def)
  next
    case 4
    with html_escaped.Gt [OF Cons.IH] show ?thesis by (simp add: step escape_cu_def)
  next
    case 5
    with html_escaped.Plain [OF 5 Cons.IH] show ?thesis by (simp add: step escape_cu_def)
  qed
qed

lemma html_escaped_unique: "html_escaped text e \<Longrightarrow> e = escapeHtml text"
  by (induction rule: html_escaped.induct) (simp_all add: escapeHtml_def escape_cu_def)

lemma line_broken_replace_newlines: "line_broken s (replace_newlines s)"
proof (induction s)
  case Nil
  show ?case by (simp add: replace_newlines_def line_broken.Over)
next
  case (Cons c s)
  show ?case
  proof (cases "c = 0x0A")
    case True
    with line_broken.Break [OF Cons.IH] show ?thesis by (simp add: replace_newlines_def)
  next
    case False
    with line_broken.Same [OF False Cons.IH] show ?thesis by (simp add: replace_newlines_def)
  qed
qed

lemma line_broken_unique: "line_broken s out \<Longrightarrow> out = replace_newlines s"
  by (induction rule: line_broken.induct) (simp_all add: replace_newlines_def)

lemma reference_render_computed:
  "reference_render ok text out \<longleftrightarrow>
     out = replace_newlines
       (replace_pairs ok (js ''*'') (js ''<em>'') (js ''</em>'')
         (replace_pairs ok (js ''**'') (js ''<strong>'') (js ''</strong>'') (escapeHtml text)))"
proof
  assume "reference_render ok text out"
  then show "out = replace_newlines
       (replace_pairs ok (js ''*'') (js ''<em>'') (js ''</em>'')
         (replace_pairs ok (js ''**'') (js ''<strong>'') (js ''</strong>'') (escapeHtml text)))"
    by (auto simp: reference_render_def
        dest!: html_escaped_unique emphasised_unique line_broken_unique)
next
  assume "out = replace_newlines
       (replace_pairs ok (js ''*'') (js ''<em>'') (js ''</em>'')
         (replace_pairs ok (js ''**'') (js ''<strong>'') (js ''</strong>'') (escapeHtml text)))"
  then show "reference_render ok text out"
    unfolding reference_render_def
    by (blast intro: html_escaped_escapeHtml replace_pairs_emphasised line_broken_replace_newlines)
qed

lemma reference_render_formatMessage:
  "reference_render same_line text out \<longleftrightarrow> out = formatMessage text"
  by (simp add: reference_render_computed formatMessage_def Let_def replace_delimited_replace_pairs)

lemma formatMessage_no_line_feed: "0x0A \<notin> set (formatMessage text)"
proof -
  have "0x0A \<notin> set (replace_newlines s)" for s
    by (induction s) (simp_all add: replace_newlines_def js_def)
  then show ?thesis by (simp add: formatMessage_def Let_def)
qed

lemma updateLessonPlan_texts:
  "map item_text (lessonList (updateLessonPlan plan s)) = map escapeHtml plan"
  using render_texts [of "currentLessonIndex s" 0 plan]
    reclass_texts [of "currentLessonIndex s" 0
      "map (\<lambda>(index, lesson). lessonItem (currentLessonIndex s) index lesson) (enumerate 0 plan)"]
  by (simp add: updateLessonPlan_def updateLessonProgress_def foldl_append_items)

lemma script_literal:
  "formatMessage (js ''<script>alert(1)</script>'') = js ''&lt;script&gt;alert(1)&lt;/script&gt;''"
  by code_simp

lemma bold_and_em:
  "formatMessage (js ''**bold** and *em*'') = js ''<strong>bold</strong> and <em>em</em>''"
  by code_simp

lemma bold_and_em_no_asterisk:
  "0x2A \<notin> set (js ''<strong>bold</strong> and <em>em</em>'')"
  by (simp add: js_def)

lemma line_feed_literal:
  "formatMessage (js ''one'' @ [0x0A] @ js ''two'') = js ''one<br>two''"
  by code_simp

lemma historyView_cases:
  "historyView \<lparr>hist_sender = sender, hist_message = text, hist_timestamp = stamp\<rparr> =
     (if sender = js ''user''
      then MessageDiv ''message user'' UserAvatar (escapeHtml text) (Some (HistoryTime stamp))
      else MessageDiv ''message ai'' RobotAvatar (formatMessage text) (Some (HistoryTime stamp)))"
  by (simp add: historyView_def)

subsection \<open>Rendering of message text\<close>

text \<open>
  C6, as amended. The text of an AI message is rendered by the reference pipeline: it is
  escaped (the ampersand, the no-break space and the angle brackets become character
  references), then each \<^verbatim>\<open>**\<close> pair becomes strong emphasis, then each \<^verbatim>\<open>*\<close> pair
  emphasis, then each line feed a line break, where a pair is matched non-greedily and
  only around a non-empty run that holds no line terminator; \<open>formatMessage\<close> computes
  the one result this pipeline admits. Whatever the input, the result holds no line
  feed and no angle bracket outside the five tags \<^verbatim>\<open><strong>\<close>, \<^verbatim>\<open></strong>\<close>, \<^verbatim>\<open><em>\<close>,
  \<^verbatim>\<open></em>\<close>, \<^verbatim>\<open><br>\<close>; a \<^verbatim>\<open><script>\<close> element comes out as escaped text,
  \<^verbatim>\<open>**bold** and *em*\<close> comes out with both emphases and no asterisk left, and a line
  feed comes out as \<^verbatim>\<open><br>\<close>. The bubble of a user message, of a system message that the
  client appends and of a replayed message of the sender \<^verbatim>\<open>user\<close>, and the title of a
  lesson, are the escaped text with no markup pass, and escaped text holds no angle
  bracket. A replayed message of any other sender is rendered as AI text, with the
  markup pass.
\<close>

theorem formatMessage_pipeline:
  assumes "sender \<noteq> js ''user''"
  shows
  "(reference_render same_line text out \<longleftrightarrow> out = formatMessage text) \<and>
   inert_html (formatMessage text) \<and>
   0x0A \<notin> set (formatMessage text) \<and>
   formatMessage (js ''<script>alert(1)</script>'') = js ''&lt;script&gt;alert(1)&lt;/script&gt;'' \<and>
   formatMessage (js ''**bold** and *em*'') = js ''<strong>bold</strong> and <em>em</em>'' \<and>
   0x2A \<notin> set (formatMessage (js ''**bold** and *em*'')) \<and>
   formatMessage (js ''one'' @ [0x0A] @ js ''two'') = js ''one<br>two'' \<and>
   (\<forall>c \<in> set (escapeHtml text). c \<noteq> 0x3C \<and> c \<noteq> 0x3E) \<and>
   chatMessages (addAIMessage text s) = chatMessages s @
     [MessageDiv ''message ai'' RobotAvatar (formatMessage text) (Some CurrentTime)] \<and>
   chatMessages (addUserMessage text s) = remove_welcome (chatMessages s) @
     [MessageDiv ''message user'' UserAvatar (escapeHtml text) (Some CurrentTime)] \<and>
   chatMessages (addSystemMessage text s) = chatMessages s @
     [MessageDiv ''message ai'' WarningAvatar (escapeHtml text) None] \<and>
   historyView \<lparr>hist_sender = js ''user'', hist_message = text, hist_timestamp = stamp\<rparr> =
     MessageDiv ''message user'' UserAvatar (escapeHtml text) (Some (HistoryTime stamp)) \<and>
   historyView \<lparr>hist_sender = sender, hist_message = text, hist_timestamp = stamp\<rparr> =
     MessageDiv ''message ai'' RobotAvatar (formatMessage text) (Some (HistoryTime stamp)) \<and>
   map item_text (lessonList (updateLessonPlan plan s)) = map escapeHtml plan"
  using assms reference_render_formatMessage [of "text" out] inert_formatMessage [of "text"]
    formatMessage_no_line_feed [of "text"]
    script_literal bold_and_em bold_and_em_no_asterisk line_feed_literal escapeHtml_text [of "text"]
    updateLessonPlan_texts [of plan s]
  by (simp add: addAIMessage_def addUserMessage_def addSystemMessage_def scrollToBottom_def
      historyView_cases)

theorem formatMessage_pipeline_witness:
  "js ''ai'' \<noteq> js ''user'' \<and>
   reference_render same_line (js ''<b>'' @ [0x0A]) (js ''&lt;b&gt;<br>'') \<and>
   inert_html (js ''&lt;b&gt;<br>'') \<and>
   historyView \<lparr>hist_sender = js ''ai'', hist_message = js ''<b>'' @ [0x0A],
       hist_timestamp = js ''t''\<rparr> =
     MessageDiv ''message ai'' RobotAvatar (js ''&lt;b&gt;<br>'') (Some (HistoryTime (js ''t'')))"
proof -
  have n: "js ''ai'' \<noteq> js ''user''" by code_simp
  have f: "formatMessage (js ''<b>'' @ [0x0A]) = js ''&lt;b&gt;<br>''" by code_simp
  from formatMessage_pipeline [OF n, of "js ''<b>'' @ [0x0A]" "js ''&lt;b&gt;<br>''" _ "js ''t''"]
    n f show ?thesis by simp
qed

text \<open>
  The claim as first stated fails in two places. A marker pair around a run that holds
  a line feed is left as it is, while the pipeline in the spec's words, with no
  condition on the run, emphasises it. And a replayed message of the sender
  \<^verbatim>\<open>system\<close> gets the markup pass: its bubble is not its escaped text.
\<close>

theorem formatMessage_counterexample:
  "formatMessage (js ''**a'' @ [0x0A] @ js ''b**'') = js ''**a<br>b**'' \<and>
   reference_render any_unit (js ''**a'' @ [0x0A] @ js ''b**'') (js ''<strong>a<br>b</strong>'') \<and>
   \<not> reference_render any_unit (js ''**a'' @ [0x0A] @ js ''b**'')
       (formatMessage (js ''**a'' @ [0x0A] @ js ''b**'')) \<and>
   historyView \<lparr>hist_sender = js ''system'', hist_message = js ''**x**'',
       hist_timestamp = js ''t''\<rparr> =
     MessageDiv ''message ai'' RobotAvatar (js ''<strong>x</strong>'') (Some (HistoryTime (js ''t''))) \<and>
   escapeHtml (js ''**x**'') = js ''**x**''"
proof -
  have code: "formatMessage (js ''**a'' @ [0x0A] @ js ''b**'') = js ''**a<br>b**''"
    by code_simp
  have spec: "replace_newlines
       (replace_pairs any_unit (js ''*'') (js ''<em>'') (js ''</em>'')
         (replace_pairs any_unit (js ''**'') (js ''<strong>'') (js ''</strong>'')
           (escapeHtml (js ''**a'' @ [0x0A] @ js ''b**'')))) = js ''<strong>a<br>b</strong>''"
    by code_simp
  have differ: "js ''**a<br>b**'' \<noteq> js ''<strong>a<br>b</strong>''"
    by code_simp
  have system: "js ''system'' \<noteq> js ''user''"
    by code_simp
  have marked: "formatMessage (js ''**x**'') = js ''<strong>x</strong>''"
    by code_simp
  have plain: "escapeHtml (js ''**x**'') = js ''**x**''"
    by code_simp
  from code spec differ system marked plain show ?thesis
    by (simp add: reference_render_computed historyView_cases)
qed

end
